theory Spec2Isabelle
  imports Complex_Main
begin

text \<open>
  The ride server of DropMate: the in-memory storage (\<^verbatim>\<open>MemStorage\<close>, imported by the
  routes as \<^verbatim>\<open>./storage\<close>), the shared schema (\<^verbatim>\<open>@shared/schema\<close>), and the routes and
  the live channel that \<^verbatim>\<open>registerRoutes\<close> installs. The routes that change the state
  are modelled, each as a function from the request and the server state to the response
  and the new state; the \<^verbatim>\<open>GET\<close> routes change nothing and are left out, as is the
  delivery-confirmation route of the snippet appended to the routes, which belongs to none
  of the operations studied here.
\<close>

section \<open>Values\<close>

text \<open>
  The server is a TypeScript program. JavaScript numbers are modelled as exact rationals:
  the arithmetic of the rating update is carried out without IEEE rounding error. Strings
  are HOL strings. Time stamps (\<^verbatim>\<open>new Date().toISOString()\<close>), random numbers
  (\<^verbatim>\<open>Math.random()\<close>) and fresh identifiers (\<^verbatim>\<open>randomUUID()\<close>) are inputs of the
  operations that read them.
\<close>

type_synonym num = rat

text \<open>
  A field of a request body that the handler reads without validating it
  (\<^verbatim>\<open>const { userId } = req.body\<close>) can hold any JSON value, or be missing.
\<close>

datatype json = JUndefined | JNull | JString string | JNumber num | JOther

text \<open>JavaScript truthiness of a string, of a \<^verbatim>\<open>string | null\<close> and of a number.\<close>

definition truthy_string :: "string \<Rightarrow> bool" where
  "truthy_string x = (x \<noteq> [])"

definition truthy :: "string option \<Rightarrow> bool" where
  "truthy x = (case x of None \<Rightarrow> False | Some v \<Rightarrow> truthy_string v)"

definition truthy_num :: "num \<Rightarrow> bool" where
  "truthy_num x = (x \<noteq> 0)"

text \<open>
  Strict equality \<^verbatim>\<open>===\<close> between a stored \<^verbatim>\<open>string | null\<close> and an unvalidated body
  field, and between a stored string and such a field. \<^verbatim>\<open>null === null\<close> holds,
  \<^verbatim>\<open>null === undefined\<close> does not.
\<close>

fun strict_eq_nullable :: "string option \<Rightarrow> json \<Rightarrow> bool" where
  "strict_eq_nullable None JNull = True"
| "strict_eq_nullable (Some a) (JString b) = (a = b)"
| "strict_eq_nullable _ _ = False"

fun strict_eq_string :: "string \<Rightarrow> json \<Rightarrow> bool" where
  "strict_eq_string a (JString b) = (a = b)"
| "strict_eq_string _ _ = False"

text \<open>\<^verbatim>\<open>Math.round\<close>: the nearest integer, a tie going up.\<close>

definition Math_round :: "num \<Rightarrow> int" where
  "Math_round x = \<lfloor>x + 1 / 2\<rfloor>"

section \<open>The shared schema\<close>

text \<open>
  The field \<^verbatim>\<open>id\<close> of a user and of a ride is \<open>user_id\<close> and \<open>ride_id\<close> here, and the
  fields of a \<^verbatim>\<open>LocationUpdate\<close> carry the prefix \<open>lu_\<close>.
\<close>

record location =
  lat :: num
  lng :: num
  address :: "string option"

datatype UserRole = Customer | Driver

text \<open>
  \<^verbatim>\<open>completedRides\<close> is a natural number: every user is stored with a literal count or
  with \<^verbatim>\<open>0\<close>, and the only update adds one.
\<close>

record User =
  user_id :: string
  walletAddress :: string
  role :: UserRole
  reputation :: int
  completedRides :: nat
  avgRating :: num
  balance :: num
  name :: "string option"

datatype RideStatus = Waiting | Accepted | In_progress | Completed | Cancelled

record Ride =
  ride_id :: string
  customerId :: string
  driverId :: "string option"
  pickup :: location
  dropoff :: location
  estimatedFare :: num
  stakedAmount :: num
  actualFare :: "num option"
  status :: RideStatus
  currentLocation :: "location option"
  createdAt :: string
  startedAt :: "string option"
  completedAt :: "string option"
  customerRating :: "num option"
  driverRating :: "num option"
  customerFeedback :: "string option"
  driverFeedback :: "string option"

record LocationUpdate =
  lu_lat :: num
  lu_lng :: num
  lu_timestamp :: num
  lu_speed :: "num option"

text \<open>
  \<^verbatim>\<open>Partial<Ride>\<close> and \<^verbatim>\<open>Partial<User>\<close>: the properties of an update object, in the
  order they were assigned. Only the properties some caller assigns are listed.
\<close>

datatype ride_field =
    Set_driverId "string option"
  | Set_status RideStatus
  | Set_currentLocation "location option"
  | Set_startedAt "string option"
  | Set_completedAt "string option"
  | Set_actualFare "num option"
  | Set_customerRating "num option"
  | Set_driverRating "num option"
  | Set_customerFeedback "string option"
  | Set_driverFeedback "string option"

datatype user_field =
    Set_avgRating num
  | Set_completedRides nat
  | Set_reputation int

fun assign_ride :: "Ride \<Rightarrow> ride_field \<Rightarrow> Ride" where
  "assign_ride r (Set_driverId v) = r\<lparr>driverId := v\<rparr>"
| "assign_ride r (Set_status v) = r\<lparr>status := v\<rparr>"
| "assign_ride r (Set_currentLocation v) = r\<lparr>currentLocation := v\<rparr>"
| "assign_ride r (Set_startedAt v) = r\<lparr>startedAt := v\<rparr>"
| "assign_ride r (Set_completedAt v) = r\<lparr>completedAt := v\<rparr>"
| "assign_ride r (Set_actualFare v) = r\<lparr>actualFare := v\<rparr>"
| "assign_ride r (Set_customerRating v) = r\<lparr>customerRating := v\<rparr>"
| "assign_ride r (Set_driverRating v) = r\<lparr>driverRating := v\<rparr>"
| "assign_ride r (Set_customerFeedback v) = r\<lparr>customerFeedback := v\<rparr>"
| "assign_ride r (Set_driverFeedback v) = r\<lparr>driverFeedback := v\<rparr>"

fun assign_user :: "User \<Rightarrow> user_field \<Rightarrow> User" where
  "assign_user u (Set_avgRating v) = u\<lparr>avgRating := v\<rparr>"
| "assign_user u (Set_completedRides v) = u\<lparr>completedRides := v\<rparr>"
| "assign_user u (Set_reputation v) = u\<lparr>reputation := v\<rparr>"

text \<open>The object spread \<^verbatim>\<open>{ ...ride, ...updates }\<close>.\<close>

definition spread_ride :: "Ride \<Rightarrow> ride_field list \<Rightarrow> Ride" where
  "spread_ride r updates = foldl assign_ride r updates"

definition spread_user :: "User \<Rightarrow> user_field list \<Rightarrow> User" where
  "spread_user u updates = foldl assign_user u updates"

text \<open>\<^verbatim>\<open>updates.status\<close>: the value last assigned to the property, if any.\<close>

fun updates_status :: "ride_field list \<Rightarrow> RideStatus option" where
  "updates_status [] = None"
| "updates_status (Set_status v # fs) =
     (case updates_status fs of None \<Rightarrow> Some v | Some w \<Rightarrow> Some w)"
| "updates_status (_ # fs) = updates_status fs"

section \<open>JavaScript maps and sets\<close>

text \<open>
  A \<^verbatim>\<open>Map\<close> keeps its entries in insertion order; \<^verbatim>\<open>set\<close> on a key that is present
  replaces the value in place. A \<^verbatim>\<open>Set\<close> keeps its members in insertion order.
\<close>

type_synonym ('k, 'v) js_map = "('k \<times> 'v) list"

definition Map_get :: "('k, 'v) js_map \<Rightarrow> 'k \<Rightarrow> 'v option" where
  "Map_get m k = map_of m k"

definition Map_has :: "('k, 'v) js_map \<Rightarrow> 'k \<Rightarrow> bool" where
  "Map_has m k = (Map_get m k \<noteq> None)"

fun Map_set :: "'k \<Rightarrow> 'v \<Rightarrow> ('k, 'v) js_map \<Rightarrow> ('k, 'v) js_map" where
  "Map_set k v [] = [(k, v)]"
| "Map_set k v ((k', v') # m) =
     (if k' = k then (k, v) # m else (k', v') # Map_set k v m)"

definition Map_delete :: "'k \<Rightarrow> ('k, 'v) js_map \<Rightarrow> ('k, 'v) js_map" where
  "Map_delete k m = filter (\<lambda>e. fst e \<noteq> k) m"

definition Map_values :: "('k, 'v) js_map \<Rightarrow> 'v list" where
  "Map_values m = map snd m"

type_synonym 'a js_set = "'a list"

definition Set_add :: "'a \<Rightarrow> 'a js_set \<Rightarrow> 'a js_set" where
  "Set_add x xs = (if x \<in> set xs then xs else xs @ [x])"

definition Set_delete :: "'a \<Rightarrow> 'a js_set \<Rightarrow> 'a js_set" where
  "Set_delete x xs = removeAll x xs"

definition Set_size :: "'a js_set \<Rightarrow> nat" where
  "Set_size xs = length xs"

section \<open>MemStorage\<close>

record MemStorage =
  users :: "(string, User) js_map"
  rides :: "(string, Ride) js_map"

definition getUser :: "MemStorage \<Rightarrow> string \<Rightarrow> User option" where
  "getUser st i = Map_get (users st) i"

definition getUserByWallet :: "MemStorage \<Rightarrow> string \<Rightarrow> User option" where
  "getUserByWallet st w = find (\<lambda>u. walletAddress u = w) (Map_values (users st))"

text \<open>
  \<^verbatim>\<open>createUser\<close>: the record of the new user without its id, the fresh id, and the name
  \<^verbatim>\<open>getRandomName()\<close> would return.
\<close>

definition createUser :: "User \<Rightarrow> string \<Rightarrow> string \<Rightarrow> MemStorage \<Rightarrow> User \<times> MemStorage" where
  "createUser insertUser newId randomName st =
     (let user = insertUser\<lparr>user_id := newId,
                   name := (if truthy (name insertUser) then name insertUser else Some randomName)\<rparr>
      in (user, st\<lparr>users := Map_set newId user (users st)\<rparr>))"

definition updateUser :: "string \<Rightarrow> user_field list \<Rightarrow> MemStorage \<Rightarrow> User option \<times> MemStorage" where
  "updateUser i updates st =
     (case Map_get (users st) i of
        None \<Rightarrow> (None, st)
      | Some user \<Rightarrow>
          (let updatedUser = spread_user user updates
           in (Some updatedUser, st\<lparr>users := Map_set i updatedUser (users st)\<rparr>)))"

record InsertRide =
  req_pickup :: location
  req_dropoff :: location
  req_estimatedFare :: num
  req_stakedAmount :: num
  req_customerId :: string

definition createRide :: "InsertRide \<Rightarrow> string \<Rightarrow> string \<Rightarrow> MemStorage \<Rightarrow> Ride \<times> MemStorage" where
  "createRide rideData newId now st =
     (let ride = \<lparr>ride_id = newId,
                  customerId = req_customerId rideData,
                  driverId = None,
                  pickup = req_pickup rideData,
                  dropoff = req_dropoff rideData,
                  estimatedFare = req_estimatedFare rideData,
                  stakedAmount = req_stakedAmount rideData,
                  actualFare = None,
                  status = Waiting,
                  currentLocation = None,
                  createdAt = now,
                  startedAt = None,
                  completedAt = None,
                  customerRating = None,
                  driverRating = None,
                  customerFeedback = None,
                  driverFeedback = None\<rparr>
      in (ride, st\<lparr>rides := Map_set newId ride (rides st)\<rparr>))"

definition getRide :: "MemStorage \<Rightarrow> string \<Rightarrow> Ride option" where
  "getRide st i = Map_get (rides st) i"

record customer_details =
  cd_name :: string
  cd_address :: string
  cd_rating :: num

record driver_details =
  dd_name :: string
  dd_address :: string
  dd_rating :: num
  dd_reputation :: int

record RideWithDetails =
  rwd_ride :: Ride
  rwd_customer :: "customer_details option"
  rwd_driver :: "driver_details option"

definition display_name :: "string option \<Rightarrow> string \<Rightarrow> string" where
  "display_name n dflt = (case n of None \<Rightarrow> dflt | Some v \<Rightarrow> if truthy_string v then v else dflt)"

definition driver_summary :: "User \<Rightarrow> driver_details" where
  "driver_summary d = \<lparr>dd_name = display_name (name d) ''Driver'',
                        dd_address = walletAddress d,
                        dd_rating = avgRating d,
                        dd_reputation = reputation d\<rparr>"

definition customer_summary :: "User \<Rightarrow> customer_details" where
  "customer_summary c = \<lparr>cd_name = display_name (name c) ''Customer'',
                          cd_address = walletAddress c,
                          cd_rating = avgRating c\<rparr>"

definition getRideWithDetails :: "MemStorage \<Rightarrow> string \<Rightarrow> RideWithDetails option" where
  "getRideWithDetails st i =
     (case Map_get (rides st) i of
        None \<Rightarrow> None
      | Some ride \<Rightarrow>
          (let customer = (if truthy_string (customerId ride) then getUser st (customerId ride) else None);
               driver = (case driverId ride of
                           None \<Rightarrow> None
                         | Some d \<Rightarrow> if truthy_string d then getUser st d else None)
           in Some \<lparr>rwd_ride = ride,
                     rwd_customer = map_option customer_summary customer,
                     rwd_driver = map_option driver_summary driver\<rparr>))"

definition updateRide :: "string \<Rightarrow> ride_field list \<Rightarrow> MemStorage \<Rightarrow> Ride option \<times> MemStorage" where
  "updateRide i updates st =
     (case Map_get (rides st) i of
        None \<Rightarrow> (None, st)
      | Some ride \<Rightarrow>
          (let updatedRide = spread_ride ride updates
           in (Some updatedRide, st\<lparr>rides := Map_set i updatedRide (rides st)\<rparr>)))"

definition activeStatuses :: "RideStatus list" where
  "activeStatuses = [Waiting, Accepted, In_progress]"

definition getActiveRide :: "MemStorage \<Rightarrow> string \<Rightarrow> RideWithDetails option" where
  "getActiveRide st userId =
     (case getUser st userId of
        None \<Rightarrow> None
      | Some user \<Rightarrow>
          (case find (\<lambda>ride.
                   if status ride \<notin> set activeStatuses then False
                   else if role user = Customer then customerId ride = userId
                   else driverId ride = Some userId)
                 (Map_values (rides st)) of
             None \<Rightarrow> None
           | Some activeRide \<Rightarrow> getRideWithDetails st (ride_id activeRide)))"

section \<open>The server: routes and the live channel\<close>

type_synonym conn = nat

text \<open>
  What the server keeps for a connection: the variable \<^verbatim>\<open>subscribedRideId\<close> of its
  handler closure, and whether its \<^verbatim>\<open>readyState\<close> is \<^verbatim>\<open>OPEN\<close>.
\<close>

record socket =
  subscribedRideId :: "string option"
  is_open :: bool

datatype status_data =
    SD_accepted string location "driver_details option"
  | SD_in_progress "string option"
  | SD_completed
  | SD_cancelled

datatype ws_out = Location_update_msg LocationUpdate | Ride_status_msg status_data

text \<open>
  The module state of the routes: the storage, the two module-level maps, the
  connections, and the frames sent so far (each \<^verbatim>\<open>send\<close> appends one).
\<close>

record server =
  storage :: MemStorage
  rideSubscriptions :: "(string, conn js_set) js_map"
  rideLocations :: "(string, LocationUpdate) js_map"
  sockets :: "(conn, socket) js_map"
  outbox :: "(conn \<times> ws_out) list"

text \<open>
  The answers of a route that are not its result: the body fails its schema (400, ``Invalid
  request''), the ride is not stored (404), the ride is not in the state the operation
  needs or the driver has an active ride (400, with the message of the route), the caller
  is not authorized (403).
\<close>

datatype error =
    ValidationError
  | NotFound string
  | Conflict string
  | Forbidden string

text \<open>The HTTP status each error is answered with.\<close>

fun status_code :: "error \<Rightarrow> nat" where
  "status_code ValidationError = 400"
| "status_code (NotFound _) = 404"
| "status_code (Conflict _) = 400"
| "status_code (Forbidden _) = 403"

definition readyState_open :: "server \<Rightarrow> conn \<Rightarrow> bool" where
  "readyState_open s c = (case Map_get (sockets s) c of None \<Rightarrow> False | Some sk \<Rightarrow> is_open sk)"

definition send :: "conn \<Rightarrow> ws_out \<Rightarrow> server \<Rightarrow> server" where
  "send c m s = s\<lparr>outbox := outbox s @ [(c, m)]\<rparr>"

definition broadcastRideStatus :: "string \<Rightarrow> status_data \<Rightarrow> server \<Rightarrow> server" where
  "broadcastRideStatus rideId st s =
     (case Map_get (rideSubscriptions s) rideId of
        None \<Rightarrow> s
      | Some subscribers \<Rightarrow>
          s\<lparr>outbox := outbox s @
               map (\<lambda>client. (client, Ride_status_msg st))
                   (filter (readyState_open s) subscribers)\<rparr>)"

subsection \<open>Request schemas\<close>

definition authConnectSchema :: "json \<Rightarrow> json \<Rightarrow> (string \<times> UserRole) option" where
  "authConnectSchema w r =
     (case w of
        JString wallet \<Rightarrow>
          (if r = JString ''customer'' then Some (wallet, Customer)
           else if r = JString ''driver'' then Some (wallet, Driver)
           else None)
      | _ \<Rightarrow> None)"

definition rideAcceptSchema :: "json \<Rightarrow> string option" where
  "rideAcceptSchema d = (case d of JString v \<Rightarrow> Some v | _ \<Rightarrow> None)"

record complete_body =
  body_completedBy :: json
  body_rating :: json
  body_feedback :: json

definition parse_completedBy :: "json \<Rightarrow> UserRole option" where
  "parse_completedBy j =
     (if j = JString ''customer'' then Some Customer
      else if j = JString ''driver'' then Some Driver
      else None)"

definition parse_rating :: "json \<Rightarrow> num option option" where
  "parse_rating j =
     (case j of
        JUndefined \<Rightarrow> Some None
      | JNumber r \<Rightarrow> if 1 \<le> r \<and> r \<le> 5 then Some (Some r) else None
      | _ \<Rightarrow> None)"

definition parse_feedback :: "json \<Rightarrow> string option option" where
  "parse_feedback j =
     (case j of JUndefined \<Rightarrow> Some None | JString v \<Rightarrow> Some (Some v) | _ \<Rightarrow> None)"

definition rideCompleteSchema :: "complete_body \<Rightarrow> (UserRole \<times> num option \<times> string option) option" where
  "rideCompleteSchema b =
     (case parse_completedBy (body_completedBy b) of
        None \<Rightarrow> None
      | Some who \<Rightarrow>
          (case parse_rating (body_rating b) of
             None \<Rightarrow> None
           | Some rating \<Rightarrow>
               (case parse_feedback (body_feedback b) of
                  None \<Rightarrow> None
                | Some feedback \<Rightarrow> Some (who, rating, feedback))))"

subsection \<open>POST /api/auth/connect and POST /api/rides/request\<close>

text \<open>
  The response of the connect route is the user; the token, a string made of the user's id
  and the time, is left out.
\<close>

definition auth_connect ::
  "json \<Rightarrow> json \<Rightarrow> string \<Rightarrow> string \<Rightarrow> num \<Rightarrow> num \<Rightarrow> num \<Rightarrow> server \<Rightarrow> (error + User) \<times> server" where
  "auth_connect bodyWallet bodyRole newId randomName rnd1 rnd2 rnd3 s =
     (case authConnectSchema bodyWallet bodyRole of
        None \<Rightarrow> (Inl ValidationError, s)
      | Some (wallet, r) \<Rightarrow>
          (case getUserByWallet (storage s) wallet of
             Some user \<Rightarrow> (Inr user, s)
           | None \<Rightarrow>
               (let (user, st) =
                      createUser \<lparr>user_id = [], walletAddress = wallet, role = r,
                                   reputation = 50 + \<lfloor>rnd1 * 30\<rfloor>,
                                   completedRides = 0,
                                   avgRating = 4 + rnd2 * (8 / 10),
                                   balance = 100 + rnd3 * 200,
                                   name = None\<rparr>
                                 newId randomName (storage s)
                in (Inr user, s\<lparr>storage := st\<rparr>))))"

text \<open>The body of a ride request after \<^verbatim>\<open>rideRequestSchema\<close>; \<open>None\<close> when it does not parse.\<close>

definition rides_request ::
  "InsertRide option \<Rightarrow> string \<Rightarrow> string \<Rightarrow> server \<Rightarrow> (error + Ride) \<times> server" where
  "rides_request parsed newId now s =
     (case parsed of
        None \<Rightarrow> (Inl ValidationError, s)
      | Some rideData \<Rightarrow>
          (let (ride, st) = createRide rideData newId now (storage s)
           in (Inr ride, s\<lparr>storage := st\<rparr>)))"

subsection \<open>POST /api/rides/:rideId/accept\<close>

definition rides_accept ::
  "string \<Rightarrow> json \<Rightarrow> num \<Rightarrow> num \<Rightarrow> server \<Rightarrow> (error + Ride option) \<times> server" where
  "rides_accept rideId bodyDriverId rnd1 rnd2 s =
     (case rideAcceptSchema bodyDriverId of
        None \<Rightarrow> (Inl ValidationError, s)
      | Some driver_id \<Rightarrow>
          (case getRide (storage s) rideId of
             None \<Rightarrow> (Inl (NotFound ''Ride not found''), s)
           | Some ride \<Rightarrow>
               if status ride \<noteq> Waiting
               then (Inl (Conflict ''Ride is no longer available''), s)
               else
                 (case getActiveRide (storage s) driver_id of
                    Some existingActiveRide \<Rightarrow>
                      (Inl (Conflict ''You already have an active ride''), s)
                  | None \<Rightarrow>
                      (let driver = getUser (storage s) driver_id;
                           initialLocation =
                             \<lparr>lat = lat (pickup ride) + (rnd1 - 1 / 2) * (2 / 100),
                              lng = lng (pickup ride) + (rnd2 - 1 / 2) * (2 / 100),
                              address = None\<rparr>;
                           (updatedRide, st) =
                             updateRide rideId
                               [Set_driverId (Some driver_id), Set_status Accepted,
                                Set_currentLocation (Some initialLocation)]
                               (storage s)
                       in (Inr updatedRide,
                           broadcastRideStatus rideId
                             (SD_accepted driver_id initialLocation (map_option driver_summary driver))
                             (s\<lparr>storage := st\<rparr>))))))"

subsection \<open>POST /api/rides/:rideId/start\<close>

definition rides_start ::
  "string \<Rightarrow> json \<Rightarrow> string \<Rightarrow> server \<Rightarrow> (error + Ride option) \<times> server" where
  "rides_start rideId bodyDriverId now s =
     (case getRide (storage s) rideId of
        None \<Rightarrow> (Inl (NotFound ''Ride not found''), s)
      | Some ride \<Rightarrow>
          if status ride \<noteq> Accepted then (Inl (Conflict ''Ride cannot be started''), s)
          else if \<not> strict_eq_nullable (driverId ride) bodyDriverId
          then (Inl (Forbidden ''Not authorized''), s)
          else
            (let (updatedRide, st) =
                   updateRide rideId
                     [Set_status In_progress, Set_startedAt (Some now),
                      Set_currentLocation (Some (pickup ride))]
                     (storage s)
             in (Inr updatedRide,
                 broadcastRideStatus rideId
                   (SD_in_progress (case updatedRide of None \<Rightarrow> None | Some u \<Rightarrow> startedAt u))
                   (s\<lparr>storage := st\<rparr>))))"

subsection \<open>POST /api/rides/:rideId/complete\<close>

text \<open>The status half: the properties assigned when the ride is in progress and not completed.\<close>

definition completion_updates :: "Ride \<Rightarrow> string \<Rightarrow> ride_field list" where
  "completion_updates ride now =
     (if status ride = In_progress \<and> \<not> truthy (completedAt ride)
      then [Set_status Completed, Set_completedAt (Some now),
            Set_actualFare (Some (estimatedFare ride))]
      else [])"

text \<open>
  The update both rating branches make to the rated user: the new running average rounded
  to one decimal, one more completed ride, two more points of reputation up to 100.
\<close>

definition rating_updates :: "User \<Rightarrow> num \<Rightarrow> user_field list" where
  "rating_updates u rating =
     (let newAvgRating =
            (avgRating u * of_nat (completedRides u) + rating) / (of_nat (completedRides u) + 1)
      in [Set_avgRating (of_int (Math_round (newAvgRating * 10)) / 10),
          Set_completedRides (completedRides u + 1),
          Set_reputation (min 100 (reputation u + 2))])"

definition or_null :: "string option \<Rightarrow> string option" where
  "or_null x = (if truthy x then x else None)"

text \<open>
  The rating half: the properties it adds to the update object, and the storage after the
  rated user was updated.
\<close>

definition rating_branch ::
  "Ride \<Rightarrow> UserRole \<Rightarrow> num option \<Rightarrow> string option \<Rightarrow> MemStorage \<Rightarrow> ride_field list \<times> MemStorage" where
  "rating_branch ride completedBy rating feedback st =
     (case rating of
        None \<Rightarrow> ([], st)
      | Some r \<Rightarrow>
          if \<not> truthy_num r then ([], st)
          else if completedBy = Customer then
            ([Set_driverRating (Some r), Set_customerFeedback (or_null feedback)],
             (case driverId ride of
                None \<Rightarrow> st
              | Some d \<Rightarrow>
                  if \<not> truthy_string d then st
                  else (case getUser st d of
                          None \<Rightarrow> st
                        | Some driver \<Rightarrow> snd (updateUser d (rating_updates driver r) st))))
          else
            ([Set_customerRating (Some r), Set_driverFeedback (or_null feedback)],
             (case getUser st (customerId ride) of
                None \<Rightarrow> st
              | Some customer \<Rightarrow>
                  snd (updateUser (customerId ride) (rating_updates customer r) st))))"

definition rides_complete ::
  "string \<Rightarrow> complete_body \<Rightarrow> string \<Rightarrow> server \<Rightarrow> (error + Ride option) \<times> server" where
  "rides_complete rideId body now s =
     (case rideCompleteSchema body of
        None \<Rightarrow> (Inl ValidationError, s)
      | Some (completedBy, rating, feedback) \<Rightarrow>
          (case getRide (storage s) rideId of
             None \<Rightarrow> (Inl (NotFound ''Ride not found''), s)
           | Some ride \<Rightarrow>
               (let (rated, st1) = rating_branch ride completedBy rating feedback (storage s);
                    updates = completion_updates ride now @ rated;
                    (updatedRide, st2) = updateRide rideId updates st1;
                    s2 = s\<lparr>storage := st2\<rparr>
                in (Inr updatedRide,
                    if updates_status updates = Some Completed
                    then (broadcastRideStatus rideId SD_completed s2)
                           \<lparr>rideLocations := Map_delete rideId (rideLocations s2)\<rparr>
                    else s2))))"

subsection \<open>POST /api/rides/:rideId/cancel\<close>

definition rides_cancel ::
  "string \<Rightarrow> json \<Rightarrow> string \<Rightarrow> server \<Rightarrow> (error + Ride option) \<times> server" where
  "rides_cancel rideId bodyUserId now s =
     (case getRide (storage s) rideId of
        None \<Rightarrow> (Inl (NotFound ''Ride not found''), s)
      | Some ride \<Rightarrow>
          if status ride \<noteq> Waiting \<and> status ride \<noteq> Accepted
          then (Inl (Conflict ''Ride cannot be cancelled''), s)
          else if \<not> strict_eq_string (customerId ride) bodyUserId
                  \<and> \<not> strict_eq_nullable (driverId ride) bodyUserId
          then (Inl (Forbidden ''Not authorized''), s)
          else
            (let (updatedRide, st) =
                   updateRide rideId [Set_status Cancelled, Set_completedAt (Some now)] (storage s);
                 s2 = broadcastRideStatus rideId SD_cancelled (s\<lparr>storage := st\<rparr>)
             in (Inr updatedRide, s2\<lparr>rideLocations := Map_delete rideId (rideLocations s2)\<rparr>)))"

subsection \<open>The live channel\<close>

datatype ws_type = Location_update | Ride_status | Subscribe | Unsubscribe

record message_data =
  md_lat :: num
  md_lng :: num
  md_timestamp :: "num option"
  md_speed :: "num option"

text \<open>A frame after \<^verbatim>\<open>wsMessageSchema\<close>.\<close>

record WsMessage =
  msg_type :: ws_type
  msg_rideId :: "string option"
  msg_data :: "message_data option"

text \<open>
  The block the subscribe, unsubscribe and close handlers share: take the connection out of
  the set of a ride, and delete the ride's entry when the set is left empty.
\<close>

definition leave_ride ::
  "conn \<Rightarrow> string \<Rightarrow> (string, conn js_set) js_map \<Rightarrow> (string, conn js_set) js_map" where
  "leave_ride ws rid m =
     (case Map_get m rid of
        None \<Rightarrow> m
      | Some subs \<Rightarrow>
          (let subs' = Set_delete ws subs
           in if Set_size subs' = 0 then Map_delete rid m else Map_set rid subs' m))"

text \<open>
  The same block under its guard \<^verbatim>\<open>if (subscribedRideId)\<close>, as the subscribe case and
  the close handler run it.
\<close>

definition leave_previous ::
  "conn \<Rightarrow> string option \<Rightarrow> (string, conn js_set) js_map \<Rightarrow> (string, conn js_set) js_map" where
  "leave_previous ws subscribed m =
     (case subscribed of
        None \<Rightarrow> m
      | Some prev \<Rightarrow> if truthy_string prev then leave_ride ws prev m else m)"

text \<open>
  Each case takes the connection, the current value of its \<^verbatim>\<open>subscribedRideId\<close> and the
  server state, and returns the new value of the variable with the new state.
\<close>

definition on_subscribe ::
  "conn \<Rightarrow> string option \<Rightarrow> string option \<Rightarrow> server \<Rightarrow> string option \<times> server" where
  "on_subscribe ws rideId subscribed s =
     (case rideId of
        None \<Rightarrow> (subscribed, s)
      | Some rid \<Rightarrow>
          if \<not> truthy_string rid then (subscribed, s)
          else
            (let m1 = leave_previous ws subscribed (rideSubscriptions s);
                 m2 = (if \<not> Map_has m1 rid then Map_set rid [] m1 else m1);
                 m3 = (case Map_get m2 rid of
                         None \<Rightarrow> m2
                       | Some subs \<Rightarrow> Map_set rid (Set_add ws subs) m2);
                 s3 = s\<lparr>rideSubscriptions := m3\<rparr>
             in (Some rid,
                 case Map_get (rideLocations s3) rid of
                   None \<Rightarrow> s3
                 | Some current \<Rightarrow> send ws (Location_update_msg current) s3)))"

definition on_unsubscribe ::
  "conn \<Rightarrow> string option \<Rightarrow> server \<Rightarrow> string option \<times> server" where
  "on_unsubscribe ws subscribed s =
     (case subscribed of
        None \<Rightarrow> (subscribed, s)
      | Some prev \<Rightarrow>
          if \<not> truthy_string prev then (subscribed, s)
          else (None, s\<lparr>rideSubscriptions := leave_ride ws prev (rideSubscriptions s)\<rparr>))"

definition on_location_update ::
  "conn \<Rightarrow> string option \<Rightarrow> message_data option \<Rightarrow> num \<Rightarrow> server \<Rightarrow> server" where
  "on_location_update ws rideId messageData now s =
     (case (rideId, messageData) of
        (Some rid, Some d) \<Rightarrow>
          if \<not> truthy_string rid then s
          else
            (let locationUpdate =
                   \<lparr>lu_lat = md_lat d, lu_lng = md_lng d,
                    lu_timestamp = (case md_timestamp d of
                                      None \<Rightarrow> now
                                    | Some t \<Rightarrow> if truthy_num t then t else now),
                    lu_speed = md_speed d\<rparr>;
                 s1 = s\<lparr>rideLocations := Map_set rid locationUpdate (rideLocations s)\<rparr>;
                 s2 = s1\<lparr>storage :=
                          snd (updateRide rid
                                 [Set_currentLocation
                                    (Some \<lparr>lat = lu_lat locationUpdate, lng = lu_lng locationUpdate,
                                           address = None\<rparr>)]
                                 (storage s1))\<rparr>
             in case Map_get (rideSubscriptions s2) rid of
                  None \<Rightarrow> s2
                | Some subscribers \<Rightarrow>
                    s2\<lparr>outbox := outbox s2 @
                          map (\<lambda>client. (client, Location_update_msg locationUpdate))
                              (filter (\<lambda>client. client \<noteq> ws \<and> readyState_open s2 client)
                                      subscribers)\<rparr>)
      | _ \<Rightarrow> s)"

definition on_message ::
  "conn \<Rightarrow> WsMessage option \<Rightarrow> num \<Rightarrow> string option \<Rightarrow> server \<Rightarrow> string option \<times> server" where
  "on_message ws parsed now subscribed s =
     (case parsed of
        None \<Rightarrow> (subscribed, s)
      | Some m \<Rightarrow>
          (case msg_type m of
             Subscribe \<Rightarrow> on_subscribe ws (msg_rideId m) subscribed s
           | Unsubscribe \<Rightarrow> on_unsubscribe ws subscribed s
           | Location_update \<Rightarrow>
               (subscribed, on_location_update ws (msg_rideId m) (msg_data m) now s)
           | Ride_status \<Rightarrow> (subscribed, s)))"

definition on_close :: "conn \<Rightarrow> string option \<Rightarrow> server \<Rightarrow> server" where
  "on_close ws subscribed s =
     s\<lparr>rideSubscriptions := leave_previous ws subscribed (rideSubscriptions s)\<rparr>"

subsection \<open>Events of a run\<close>

text \<open>
  The requests and channel events the server processes, one at a time. A connection is a
  fresh object: it connects once, receives frames while it is open, and closes once.
\<close>

datatype event =
    AuthConnect json json string string num num num
  | RideRequest "InsertRide option" string string
  | RideAccept string json num num
  | RideStart string json string
  | RideComplete string complete_body string
  | RideCancel string json string
  | WsConnect conn
  | WsFrame conn "WsMessage option" num
  | WsClose conn

fun step :: "server \<Rightarrow> event \<Rightarrow> server" where
  "step s (AuthConnect w r newId randomName rnd1 rnd2 rnd3) =
     snd (auth_connect w r newId randomName rnd1 rnd2 rnd3 s)"
| "step s (RideRequest parsed newId now) = snd (rides_request parsed newId now s)"
| "step s (RideAccept rideId d rnd1 rnd2) = snd (rides_accept rideId d rnd1 rnd2 s)"
| "step s (RideStart rideId d now) = snd (rides_start rideId d now s)"
| "step s (RideComplete rideId body now) = snd (rides_complete rideId body now s)"
| "step s (RideCancel rideId u now) = snd (rides_cancel rideId u now s)"
| "step s (WsConnect c) =
     (if Map_has (sockets s) c then s
      else s\<lparr>sockets := Map_set c \<lparr>subscribedRideId = None, is_open = True\<rparr> (sockets s)\<rparr>)"
| "step s (WsFrame c parsed now) =
     (case Map_get (sockets s) c of
        None \<Rightarrow> s
      | Some sk \<Rightarrow>
          if \<not> is_open sk then s
          else
            (let (subscribed, s1) = on_message c parsed now (subscribedRideId sk) s
             in s1\<lparr>sockets := Map_set c (sk\<lparr>subscribedRideId := subscribed\<rparr>) (sockets s1)\<rparr>))"
| "step s (WsClose c) =
     (case Map_get (sockets s) c of
        None \<Rightarrow> s
      | Some sk \<Rightarrow>
          if \<not> is_open sk then s
          else
            (let s1 = on_close c (subscribedRideId sk) s
             in s1\<lparr>sockets := Map_set c (sk\<lparr>is_open := False\<rparr>) (sockets s1)\<rparr>))"

definition run :: "server \<Rightarrow> event list \<Rightarrow> server" where
  "run s es = foldl step s es"

subsection \<open>The server at start-up\<close>

definition demo_user ::
  "string \<Rightarrow> string \<Rightarrow> UserRole \<Rightarrow> int \<Rightarrow> nat \<Rightarrow> num \<Rightarrow> num \<Rightarrow> string \<Rightarrow> User" where
  "demo_user i w r rep n avg bal nm =
     \<lparr>user_id = i, walletAddress = w, role = r, reputation = rep, completedRides = n,
      avgRating = avg, balance = bal, name = Some nm\<rparr>"

definition demo_ride ::
  "string \<Rightarrow> string \<Rightarrow> location \<Rightarrow> location \<Rightarrow> num \<Rightarrow> num \<Rightarrow> string \<Rightarrow> Ride" where
  "demo_ride i c p d fare stake now =
     \<lparr>ride_id = i, customerId = c, driverId = None, pickup = p, dropoff = d,
      estimatedFare = fare, stakedAmount = stake, actualFare = None, status = Waiting,
      currentLocation = None, createdAt = now, startedAt = None, completedAt = None,
      customerRating = None, driverRating = None, customerFeedback = None,
      driverFeedback = None\<rparr>"

definition place :: "num \<Rightarrow> num \<Rightarrow> string \<Rightarrow> location" where
  "place la lo a = \<lparr>lat = la, lng = lo, address = Some a\<rparr>"

text \<open>\<^verbatim>\<open>seedDemoData\<close>: the drivers, then the rides, then the customers.\<close>

definition seedDemoData :: "string \<Rightarrow> MemStorage" where
  "seedDemoData now =
     \<lparr>users =
        [(''demo-driver-1'',
          demo_user ''demo-driver-1'' ''0xdriver1...abc'' Driver 78 45 (47 / 10) (491 / 2)
            ''Marcus Chen''),
         (''demo-driver-2'',
          demo_user ''demo-driver-2'' ''0xdriver2...def'' Driver 92 120 (49 / 10) (89025 / 100)
            ''Sarah Johnson''),
         (''demo-customer-1'',
          demo_user ''demo-customer-1'' ''0xcustomer1...xyz'' Customer 65 12 (45 / 10) 150
            ''Emma Thompson''),
         (''demo-customer-2'',
          demo_user ''demo-customer-2'' ''0xcustomer2...uvw'' Customer 88 34 (48 / 10) (151 / 2)
            ''David Park''),
         (''demo-customer-3'',
          demo_user ''demo-customer-3'' ''0xcustomer3...rst'' Customer 72 8 (43 / 10) 200
            ''Lisa Wang'')],
      rides =
        [(''demo-ride-1'',
          demo_ride ''demo-ride-1'' ''demo-customer-1''
            (place (377849 / 10000) (- 1224094 / 10000) ''Market Street, Downtown'')
            (place (376213 / 10000) (- 1223790 / 10000) ''Airport Terminal 1, SFO'')
            (57 / 2) (3278 / 100) now),
         (''demo-ride-2'',
          demo_ride ''demo-ride-2'' ''demo-customer-2''
            (place (378080 / 10000) (- 1224177 / 10000) ''Fisherman's Wharf, SF'')
            (place (377879 / 10000) (- 1224074 / 10000) ''Union Square, Downtown'')
            (51 / 4) (1466 / 100) now),
         (''demo-ride-3'',
          demo_ride ''demo-ride-3'' ''demo-customer-3''
            (place (377609 / 10000) (- 1224350 / 10000) ''Castro District, SF'')
            (place (378199 / 10000) (- 1224783 / 10000) ''Golden Gate Bridge'')
            (73 / 4) (2099 / 100) now)]\<rparr>"

definition initial_server :: "string \<Rightarrow> server" where
  "initial_server now =
     \<lparr>storage = seedDemoData now, rideSubscriptions = [], rideLocations = [],
      sockets = [], outbox = []\<rparr>"

section \<open>Properties of the ride lifecycle and of the subscription registry\<close>

text \<open>
  One move of the ride state machine: the ride keeps its id, and either takes one of the
  transitions waiting to accepted (a driver is set), accepted to in progress, in progress to
  completed, waiting or accepted to cancelled, or keeps its status and its driver.
\<close>

definition lifecycle_move :: "Ride \<Rightarrow> Ride \<Rightarrow> bool" where
  "lifecycle_move r r' =
     (ride_id r' = ride_id r \<and>
      (status r = Waiting \<and> status r' = Accepted \<and> driverId r' \<noteq> None
       \<or> status r = Accepted \<and> status r' = In_progress \<and> driverId r' = driverId r
       \<or> status r = In_progress \<and> status r' = Completed \<and> driverId r' = driverId r
       \<or> (status r = Waiting \<or> status r = Accepted) \<and> status r' = Cancelled
           \<and> driverId r' = driverId r
       \<or> status r' = status r \<and> driverId r' = driverId r))"

text \<open>The invariant as the data model words it: no driver exactly when waiting.\<close>

definition driver_null_iff_waiting :: "Ride \<Rightarrow> bool" where
  "driver_null_iff_waiting r = ((driverId r = None) = (status r = Waiting))"

text \<open>
  What the lifecycle keeps: a waiting ride has no driver, and a ride without a driver is
  waiting or was cancelled.
\<close>

definition driver_matches_status :: "Ride \<Rightarrow> bool" where
  "driver_matches_status r =
     ((status r = Waiting \<longrightarrow> driverId r = None)
      \<and> (driverId r = None \<longrightarrow> status r = Waiting \<or> status r = Cancelled))"

text \<open>Every ride is stored under its own id.\<close>

definition rides_filed :: "MemStorage \<Rightarrow> bool" where
  "rides_filed st = (\<forall>(k, r) \<in> set (rides st). ride_id r = k)"

text \<open>
  The party a rating is about: the ride's driver when the customer rates (if the ride has
  one), the ride's customer when the driver rates.
\<close>

definition other_party :: "Ride \<Rightarrow> UserRole \<Rightarrow> string option" where
  "other_party ride who =
     (case who of
        Customer \<Rightarrow> (if truthy (driverId ride) then driverId ride else None)
      | Driver \<Rightarrow> Some (customerId ride))"

text \<open>The user record after one rating \<open>r\<close>.\<close>

definition rated :: "User \<Rightarrow> num \<Rightarrow> User" where
  "rated u r =
     u\<lparr>avgRating :=
         of_int (Math_round
           ((avgRating u * of_nat (completedRides u) + r) / of_nat (completedRides u + 1) * 10)) / 10,
       completedRides := completedRides u + 1,
       reputation := min 100 (reputation u + 2)\<rparr>"

text \<open>The subscribers of a ride.\<close>

definition subscribers_of :: "server \<Rightarrow> string \<Rightarrow> conn list" where
  "subscribers_of s rid = (case Map_get (rideSubscriptions s) rid of None \<Rightarrow> [] | Some cs \<Rightarrow> cs)"

text \<open>No ride is a key with an empty set of connections.\<close>

definition no_empty_subscription :: "server \<Rightarrow> bool" where
  "no_empty_subscription s = (\<forall>(rid, cs) \<in> set (rideSubscriptions s). cs \<noteq> [])"

text \<open>
  The registry agrees with the connections: its keys are distinct, no set is empty, a
  connection in the set of a ride has that ride as its \<^verbatim>\<open>subscribedRideId\<close>, and no
  connection has the empty string there.
\<close>

definition registry_consistent :: "server \<Rightarrow> bool" where
  "registry_consistent s =
     (distinct (map fst (rideSubscriptions s))
      \<and> (\<forall>rid cs. Map_get (rideSubscriptions s) rid = Some cs \<longrightarrow>
            cs \<noteq> [] \<and>
            (\<forall>c \<in> set cs. \<exists>sk. Map_get (sockets s) c = Some sk \<and> subscribedRideId sk = Some rid))
      \<and> (\<forall>c sk. Map_get (sockets s) c = Some sk \<longrightarrow> subscribedRideId sk \<noteq> Some []))"

subsection \<open>Example states\<close>

definition accepted_server :: server where
  "accepted_server =
     run (initial_server ''t0'') [RideAccept ''demo-ride-1'' (JString ''demo-driver-1'') 0 0]"

definition cancelled_server :: server where
  "cancelled_server =
     run accepted_server [RideCancel ''demo-ride-2'' (JString ''demo-customer-2'') ''t1'']"

definition in_progress_server :: server where
  "in_progress_server =
     run accepted_server [RideStart ''demo-ride-1'' (JString ''demo-driver-1'') ''t1'']"

definition driver_rates :: "num \<Rightarrow> complete_body" where
  "driver_rates r =
     \<lparr>body_completedBy = JString ''driver'', body_rating = JNumber r, body_feedback = JUndefined\<rparr>"


definition no_rating :: "string \<Rightarrow> complete_body" where
  "no_rating who =
     \<lparr>body_completedBy = JString who, body_rating = JUndefined, body_feedback = JUndefined\<rparr>"

definition subscribe_frame :: "string \<Rightarrow> WsMessage option" where
  "subscribe_frame rid = Some \<lparr>msg_type = Subscribe, msg_rideId = Some rid, msg_data = None\<rparr>"


definition location_frame :: "string \<Rightarrow> num \<Rightarrow> num \<Rightarrow> WsMessage option" where
  "location_frame rid la lo =
     Some \<lparr>msg_type = Location_update, msg_rideId = Some rid,
           msg_data = Some \<lparr>md_lat = la, md_lng = lo, md_timestamp = None, md_speed = None\<rparr>\<rparr>"

definition registry_events :: "event list" where
  "registry_events =
     [WsConnect 1, WsConnect 2,
      WsFrame 1 (subscribe_frame ''ride-a'') 0,
      WsFrame 2 (subscribe_frame ''ride-a'') 0,
      WsFrame 1 (subscribe_frame ''ride-b'') 0,
      WsClose 2]"

definition watching_server :: server where
  "watching_server =
     run (initial_server ''t0'')
       [WsConnect 1, WsConnect 2,
        WsFrame 1 (subscribe_frame ''ride-a'') 0,
        WsFrame 2 (location_frame ''ride-b'' 1 2) 7]"

section \<open>Proofs\<close>

subsection \<open>Maps\<close>

lemma Map_get_Map_set: "Map_get (Map_set k v m) k' = (if k' = k then Some v else Map_get m k')"
  by (induction m) (auto simp: Map_get_def)

lemma Map_get_Map_delete: "Map_get (Map_delete k m) k' = (if k' = k then None else Map_get m k')"
  by (induction m) (auto simp: Map_get_def Map_delete_def)

lemma set_Map_set: "set (Map_set k v m) \<subseteq> insert (k, v) (set m)"
  by (induction m) (auto split: if_splits)

lemma map_fst_Map_set:
  "map fst (Map_set k v m) = (if k \<in> set (map fst m) then map fst m else map fst m @ [k])"
  by (induction m) force+

lemma distinct_Map_set: "distinct (map fst m) \<Longrightarrow> distinct (map fst (Map_set k v m))"
  unfolding map_fst_Map_set by auto

lemma distinct_Map_delete: "distinct (map fst m) \<Longrightarrow> distinct (map fst (Map_delete k m))"
  by (simp add: Map_delete_def distinct_map_filter)

lemma Map_get_in_set: "Map_get m k = Some v \<Longrightarrow> (k, v) \<in> set m"
  by (simp add: Map_get_def map_of_SomeD)

lemma in_set_Map_get: "(k, v) \<in> set m \<Longrightarrow> Map_get m k \<noteq> None"
  by (induction m) (auto simp: Map_get_def)

lemma entries_Map_set:
  assumes "\<forall>(k', r) \<in> set m. Q k' r" and "Q k v"
  shows "\<forall>(k', r) \<in> set (Map_set k v m). Q k' r"
  using assms set_Map_set [of k v m] by auto

subsection \<open>Storage\<close>

lemma broadcastRideStatus_fields [simp]:
  "storage (broadcastRideStatus rid d s) = storage s"
  "rideSubscriptions (broadcastRideStatus rid d s) = rideSubscriptions s"
  "rideLocations (broadcastRideStatus rid d s) = rideLocations s"
  "sockets (broadcastRideStatus rid d s) = sockets s"
  by (simp_all add: broadcastRideStatus_def split: option.splits)

lemma updateRide_found:
  "Map_get (rides st) i = Some r \<Longrightarrow>
   updateRide i ups st = (Some (spread_ride r ups), st\<lparr>rides := Map_set i (spread_ride r ups) (rides st)\<rparr>)"
  by (simp add: updateRide_def Let_def)

lemma updateRide_missing: "Map_get (rides st) i = None \<Longrightarrow> updateRide i ups st = (None, st)"
  by (simp add: updateRide_def)

lemma updateUser_found:
  "Map_get (users st) i = Some u \<Longrightarrow>
   updateUser i ups st = (Some (spread_user u ups), st\<lparr>users := Map_set i (spread_user u ups) (users st)\<rparr>)"
  by (simp add: updateUser_def Let_def)

lemma rating_branch_rides [simp]: "rides (snd (rating_branch ride who rating fb st)) = rides st"
  by (simp add: rating_branch_def updateUser_def getUser_def Let_def split: option.splits)

lemma rating_branch_spread:
  "status (spread_ride r (ups @ fst (rating_branch ride who rating fb st))) = status (spread_ride r ups)"
  "driverId (spread_ride r (ups @ fst (rating_branch ride who rating fb st))) = driverId (spread_ride r ups)"
  "ride_id (spread_ride r (ups @ fst (rating_branch ride who rating fb st))) = ride_id (spread_ride r ups)"
  "completedAt (spread_ride r (ups @ fst (rating_branch ride who rating fb st))) = completedAt (spread_ride r ups)"
  "actualFare (spread_ride r (ups @ fst (rating_branch ride who rating fb st))) = actualFare (spread_ride r ups)"
  by (simp_all add: rating_branch_def spread_ride_def split: option.splits)

lemma rating_branch_status [simp]:
  "updates_status (ups @ fst (rating_branch ride who rating fb st)) = updates_status ups"
  by (induction ups rule: updates_status.induct)
     (simp_all add: rating_branch_def split: option.splits)

lemma completion_updates_spread:
  "status (spread_ride ride (completion_updates ride now)) =
     (if status ride = In_progress \<and> \<not> truthy (completedAt ride) then Completed else status ride)"
  "completedAt (spread_ride ride (completion_updates ride now)) =
     (if status ride = In_progress \<and> \<not> truthy (completedAt ride) then Some now else completedAt ride)"
  "actualFare (spread_ride ride (completion_updates ride now)) =
     (if status ride = In_progress \<and> \<not> truthy (completedAt ride) then Some (estimatedFare ride)
      else actualFare ride)"
  "driverId (spread_ride ride (completion_updates ride now)) = driverId ride"
  "ride_id (spread_ride ride (completion_updates ride now)) = ride_id ride"
  by (simp_all add: completion_updates_def spread_ride_def)

lemma rides_complete_found:
  assumes "getRide (storage s) rideId = Some ride"
    and "rideCompleteSchema body = Some (who, rating, fb)"
  shows "fst (rides_complete rideId body now s) =
           Inr (Some (spread_ride ride (completion_updates ride now
                        @ fst (rating_branch ride who rating fb (storage s)))))"
    and "storage (snd (rides_complete rideId body now s)) =
           (snd (rating_branch ride who rating fb (storage s)))
             \<lparr>rides := Map_set rideId
                 (spread_ride ride (completion_updates ride now
                    @ fst (rating_branch ride who rating fb (storage s))))
                 (rides (storage s))\<rparr>"
  using assms
  by (simp_all add: rides_complete_def getRide_def updateRide_found Let_def split_beta)


subsection \<open>Every request moves at most one ride along the lifecycle\<close>

text \<open>How the rides of the storage differ after a step.\<close>

lemma spread_ride_location:
  "spread_ride r [Set_currentLocation l] = r\<lparr>currentLocation := l\<rparr>"
  by (simp add: spread_ride_def)

lemma rides_accept_success:
  assumes "rideAcceptSchema b = Some d" and "getRide (storage s) rideId = Some ride"
    and "status ride = Waiting" and "getActiveRide (storage s) d = None"
  shows "fst (rides_accept rideId b rnd1 rnd2 s) =
           Inr (Some (ride\<lparr>driverId := Some d, status := Accepted,
                  currentLocation :=
                    Some \<lparr>lat = lat (pickup ride) + (rnd1 - 1 / 2) * (2 / 100),
                          lng = lng (pickup ride) + (rnd2 - 1 / 2) * (2 / 100),
                          address = None\<rparr>\<rparr>))"
    and "storage (snd (rides_accept rideId b rnd1 rnd2 s)) =
           (storage s)\<lparr>rides := Map_set rideId
              (ride\<lparr>driverId := Some d, status := Accepted,
                 currentLocation :=
                   Some \<lparr>lat = lat (pickup ride) + (rnd1 - 1 / 2) * (2 / 100),
                         lng = lng (pickup ride) + (rnd2 - 1 / 2) * (2 / 100),
                         address = None\<rparr>\<rparr>)
              (rides (storage s))\<rparr>"
  using assms
  by (simp_all add: rides_accept_def getRide_def updateRide_found Let_def spread_ride_def)

lemma rides_accept_failure:
  assumes "\<not> (\<exists>d ride. rideAcceptSchema b = Some d \<and> getRide (storage s) rideId = Some ride
               \<and> status ride = Waiting \<and> getActiveRide (storage s) d = None)"
  shows "snd (rides_accept rideId b rnd1 rnd2 s) = s"
  using assms by (auto simp: rides_accept_def split: option.splits)

lemma rides_accept_rides:
  "rides (storage (snd (rides_accept rideId b rnd1 rnd2 s))) = rides (storage s)
   \<or> (\<exists>r r'. Map_get (rides (storage s)) rideId = Some r \<and> lifecycle_move r r'
         \<and> rides (storage (snd (rides_accept rideId b rnd1 rnd2 s)))
             = Map_set rideId r' (rides (storage s)))"
proof (cases "\<exists>d ride. rideAcceptSchema b = Some d \<and> getRide (storage s) rideId = Some ride
               \<and> status ride = Waiting \<and> getActiveRide (storage s) d = None")
  case True
  then obtain d ride where h: "rideAcceptSchema b = Some d" "getRide (storage s) rideId = Some ride"
    "status ride = Waiting" "getActiveRide (storage s) d = None"
    by blast
  let ?r = "ride\<lparr>driverId := Some d, status := Accepted,
                 currentLocation :=
                   Some \<lparr>lat = lat (pickup ride) + (rnd1 - 1 / 2) * (2 / 100),
                         lng = lng (pickup ride) + (rnd2 - 1 / 2) * (2 / 100),
                         address = None\<rparr>\<rparr>"
  have "lifecycle_move ride ?r"
    using h(3) by (simp add: lifecycle_move_def)
  moreover have "rides (storage (snd (rides_accept rideId b rnd1 rnd2 s)))
                   = Map_set rideId ?r (rides (storage s))"
    by (simp add: rides_accept_success(2) [OF h])
  moreover have "Map_get (rides (storage s)) rideId = Some ride"
    using h(2) by (simp add: getRide_def)
  ultimately show ?thesis by blast
next
  case False
  then show ?thesis by (simp add: rides_accept_failure)
qed

lemma rides_start_success:
  assumes "getRide (storage s) rideId = Some ride" and "status ride = Accepted"
    and "strict_eq_nullable (driverId ride) b"
  shows "fst (rides_start rideId b now s) =
           Inr (Some (ride\<lparr>status := In_progress, startedAt := Some now,
                  currentLocation := Some (pickup ride)\<rparr>))"
    and "storage (snd (rides_start rideId b now s)) =
           (storage s)\<lparr>rides := Map_set rideId
              (ride\<lparr>status := In_progress, startedAt := Some now,
                 currentLocation := Some (pickup ride)\<rparr>)
              (rides (storage s))\<rparr>"
  using assms
  by (simp_all add: rides_start_def getRide_def updateRide_found Let_def spread_ride_def)

lemma rides_start_failure:
  assumes "\<not> (\<exists>ride. getRide (storage s) rideId = Some ride \<and> status ride = Accepted
               \<and> strict_eq_nullable (driverId ride) b)"
  shows "snd (rides_start rideId b now s) = s"
  using assms by (auto simp: rides_start_def split: option.splits)

lemma rides_start_rides:
  "rides (storage (snd (rides_start rideId b now s))) = rides (storage s)
   \<or> (\<exists>r r'. Map_get (rides (storage s)) rideId = Some r \<and> lifecycle_move r r'
         \<and> rides (storage (snd (rides_start rideId b now s)))
             = Map_set rideId r' (rides (storage s)))"
proof (cases "\<exists>ride. getRide (storage s) rideId = Some ride \<and> status ride = Accepted
               \<and> strict_eq_nullable (driverId ride) b")
  case True
  then obtain ride where h: "getRide (storage s) rideId = Some ride" "status ride = Accepted"
    "strict_eq_nullable (driverId ride) b"
    by blast
  let ?r = "ride\<lparr>status := In_progress, startedAt := Some now,
                 currentLocation := Some (pickup ride)\<rparr>"
  have "lifecycle_move ride ?r"
    using h(2) by (simp add: lifecycle_move_def)
  moreover have "rides (storage (snd (rides_start rideId b now s)))
                   = Map_set rideId ?r (rides (storage s))"
    by (simp add: rides_start_success(2) [OF h])
  moreover have "Map_get (rides (storage s)) rideId = Some ride"
    using h(1) by (simp add: getRide_def)
  ultimately show ?thesis by blast
next
  case False
  then show ?thesis by (simp add: rides_start_failure)
qed

lemma rides_cancel_success:
  assumes "getRide (storage s) rideId = Some ride"
    and "status ride = Waiting \<or> status ride = Accepted"
    and "strict_eq_string (customerId ride) b \<or> strict_eq_nullable (driverId ride) b"
  shows "fst (rides_cancel rideId b now s) =
           Inr (Some (ride\<lparr>status := Cancelled, completedAt := Some now\<rparr>))"
    and "storage (snd (rides_cancel rideId b now s)) =
           (storage s)\<lparr>rides := Map_set rideId
              (ride\<lparr>status := Cancelled, completedAt := Some now\<rparr>) (rides (storage s))\<rparr>"
  using assms
  by (auto simp: rides_cancel_def getRide_def updateRide_found Let_def spread_ride_def)

lemma rides_cancel_failure:
  assumes "\<not> (\<exists>ride. getRide (storage s) rideId = Some ride
               \<and> (status ride = Waiting \<or> status ride = Accepted)
               \<and> (strict_eq_string (customerId ride) b \<or> strict_eq_nullable (driverId ride) b))"
  shows "snd (rides_cancel rideId b now s) = s"
  using assms by (auto simp: rides_cancel_def split: option.splits)

lemma rides_cancel_rides:
  "rides (storage (snd (rides_cancel rideId b now s))) = rides (storage s)
   \<or> (\<exists>r r'. Map_get (rides (storage s)) rideId = Some r \<and> lifecycle_move r r'
         \<and> rides (storage (snd (rides_cancel rideId b now s)))
             = Map_set rideId r' (rides (storage s)))"
proof (cases "\<exists>ride. getRide (storage s) rideId = Some ride
               \<and> (status ride = Waiting \<or> status ride = Accepted)
               \<and> (strict_eq_string (customerId ride) b \<or> strict_eq_nullable (driverId ride) b)")
  case True
  then obtain ride where h: "getRide (storage s) rideId = Some ride"
    "status ride = Waiting \<or> status ride = Accepted"
    "strict_eq_string (customerId ride) b \<or> strict_eq_nullable (driverId ride) b"
    by blast
  let ?r = "ride\<lparr>status := Cancelled, completedAt := Some now\<rparr>"
  have "lifecycle_move ride ?r"
    using h(2) by (auto simp: lifecycle_move_def)
  moreover have "rides (storage (snd (rides_cancel rideId b now s)))
                   = Map_set rideId ?r (rides (storage s))"
    by (simp add: rides_cancel_success(2) [OF h])
  moreover have "Map_get (rides (storage s)) rideId = Some ride"
    using h(1) by (simp add: getRide_def)
  ultimately show ?thesis by blast
next
  case False
  then show ?thesis by (simp add: rides_cancel_failure)
qed

lemma complete_is_move:
  "lifecycle_move ride
     (spread_ride ride (completion_updates ride now @ fst (rating_branch ride who rating fb st)))"
  by (simp add: lifecycle_move_def rating_branch_spread completion_updates_spread)

lemma rides_complete_rides:
  "rides (storage (snd (rides_complete rideId body now s))) = rides (storage s)
   \<or> (\<exists>r r'. Map_get (rides (storage s)) rideId = Some r \<and> lifecycle_move r r'
         \<and> rides (storage (snd (rides_complete rideId body now s)))
             = Map_set rideId r' (rides (storage s)))"
proof (cases "rideCompleteSchema body")
  case None
  then show ?thesis by (simp add: rides_complete_def)
next
  case (Some p)
  obtain who rating fb where p: "p = (who, rating, fb)" by (cases p)
  show ?thesis
  proof (cases "getRide (storage s) rideId")
    case None
    with Some show ?thesis by (simp add: rides_complete_def p)
  next
    case (Some ride)
    let ?r = "spread_ride ride (completion_updates ride now
                 @ fst (rating_branch ride who rating fb (storage s)))"
    have "rides (storage (snd (rides_complete rideId body now s)))
            = Map_set rideId ?r (rides (storage s))"
      using rides_complete_found(2) [OF Some \<open>rideCompleteSchema body = Some p\<close> [unfolded p]]
      by simp
    moreover have "lifecycle_move ride ?r" by (rule complete_is_move)
    moreover have "Map_get (rides (storage s)) rideId = Some ride"
      using Some by (simp add: getRide_def)
    ultimately show ?thesis by blast
  qed
qed

lemma on_location_update_rides:
  "rides (storage (on_location_update ws rideId d now s)) = rides (storage s)
   \<or> (\<exists>k r r'. Map_get (rides (storage s)) k = Some r \<and> lifecycle_move r r'
         \<and> rides (storage (on_location_update ws rideId d now s))
             = Map_set k r' (rides (storage s)))"
proof (cases rideId)
  case None
  then show ?thesis by (simp add: on_location_update_def)
next
  case (Some rid)
  show ?thesis
  proof (cases d)
    case None
    with Some show ?thesis by (simp add: on_location_update_def)
  next
    case (Some md)
    show ?thesis
    proof (cases "Map_get (rides (storage s)) rid")
      case None
      with Some \<open>rideId = Some rid\<close> show ?thesis
        by (simp add: on_location_update_def Let_def updateRide_missing split: option.splits)
    next
      case (Some r)
      have "lifecycle_move r (r\<lparr>currentLocation := l\<rparr>)" for l
        by (simp add: lifecycle_move_def)
      with Some \<open>d = Some md\<close> \<open>rideId = Some rid\<close> show ?thesis
        by (auto simp: on_location_update_def Let_def updateRide_found spread_ride_location
            split: option.splits)
    qed
  qed
qed

lemma on_message_rides:
  "rides (storage (snd (on_message ws parsed now subscribed s))) = rides (storage s)
   \<or> (\<exists>k r r'. Map_get (rides (storage s)) k = Some r \<and> lifecycle_move r r'
         \<and> rides (storage (snd (on_message ws parsed now subscribed s)))
             = Map_set k r' (rides (storage s)))"
proof (cases parsed)
  case None
  then show ?thesis by (simp add: on_message_def)
next
  case (Some m)
  show ?thesis
  proof (cases "msg_type m")
    case Location_update
    with Some on_location_update_rides [of ws "msg_rideId m" "msg_data m" now s]
    show ?thesis by (simp add: on_message_def)
  next
    case Ride_status
    with Some show ?thesis by (simp add: on_message_def)
  next
    case Subscribe
    with Some show ?thesis
      by (simp add: on_message_def on_subscribe_def Let_def send_def split: option.splits)
  next
    case Unsubscribe
    with Some show ?thesis
      by (simp add: on_message_def on_unsubscribe_def split: option.splits)
  qed
qed

text \<open>
  A step leaves the rides as they are, moves one stored ride along the lifecycle, or files
  a new waiting ride without a driver under its id.
\<close>

lemma step_rides:
  "rides (storage (step s e)) = rides (storage s)
   \<or> (\<exists>k r r'. Map_get (rides (storage s)) k = Some r \<and> lifecycle_move r r'
         \<and> rides (storage (step s e)) = Map_set k r' (rides (storage s)))
   \<or> (\<exists>k r'. ride_id r' = k \<and> status r' = Waiting \<and> driverId r' = None
         \<and> rides (storage (step s e)) = Map_set k r' (rides (storage s)))"
proof (cases e)
  case (AuthConnect w r newId randomName rnd1 rnd2 rnd3)
  then show ?thesis
    by (simp add: auth_connect_def createUser_def Let_def split: option.splits prod.splits)
next
  case (RideRequest parsed newId now)
  show ?thesis
  proof (cases parsed)
    case None
    with RideRequest show ?thesis by (simp add: rides_request_def)
  next
    case (Some rideData)
    let ?r = "fst (createRide rideData newId now (storage s))"
    have "rides (storage (step s e)) = Map_set newId ?r (rides (storage s))"
      using RideRequest Some by (simp add: rides_request_def createRide_def Let_def)
    moreover have "ride_id ?r = newId \<and> status ?r = Waiting \<and> driverId ?r = None"
      by (simp add: createRide_def Let_def)
    ultimately show ?thesis by blast
  qed
next
  case (RideAccept rideId d rnd1 rnd2)
  with rides_accept_rides [of rideId d rnd1 rnd2 s] show ?thesis by auto
next
  case (RideStart rideId d now)
  with rides_start_rides [of rideId d now s] show ?thesis by auto
next
  case (RideComplete rideId body now)
  with rides_complete_rides [of rideId body now s] show ?thesis by auto
next
  case (RideCancel rideId u now)
  with rides_cancel_rides [of rideId u now s] show ?thesis by auto
next
  case (WsConnect c)
  then show ?thesis by simp
next
  case (WsFrame c parsed now)
  show ?thesis
  proof (cases "Map_get (sockets s) c")
    case None
    with WsFrame show ?thesis by simp
  next
    case (Some sk)
    with WsFrame on_message_rides [of c parsed now "subscribedRideId sk" s] show ?thesis
      by (auto simp: split_beta)
  qed
next
  case (WsClose c)
  then show ?thesis by (simp add: on_close_def Let_def split: option.splits)
qed

lemma run_snoc: "run s (es @ [e]) = step (run s es) e"
  by (simp add: run_def)

lemma run_Nil: "run s [] = s"
  by (simp add: run_def)

lemma move_keeps_driver_matches:
  "lifecycle_move r r' \<Longrightarrow> driver_matches_status r \<Longrightarrow> driver_matches_status r'"
  by (auto simp: lifecycle_move_def driver_matches_status_def)

lemma step_keeps_rides:
  assumes inv: "\<forall>(k, r) \<in> set (rides (storage s)). ride_id r = k \<and> driver_matches_status r"
  shows "\<forall>(k, r) \<in> set (rides (storage (step s e))). ride_id r = k \<and> driver_matches_status r"
proof -
  consider (same) "rides (storage (step s e)) = rides (storage s)"
    | (move) k r r' where "Map_get (rides (storage s)) k = Some r" "lifecycle_move r r'"
        "rides (storage (step s e)) = Map_set k r' (rides (storage s))"
    | (new) k r' where "ride_id r' = k" "status r' = Waiting" "driverId r' = None"
        "rides (storage (step s e)) = Map_set k r' (rides (storage s))"
    using step_rides [of s e] by blast
  then show ?thesis
  proof cases
    case same
    with inv show ?thesis by simp
  next
    case move
    from move(1) have "(k, r) \<in> set (rides (storage s))" by (rule Map_get_in_set)
    with inv have "ride_id r = k" "driver_matches_status r" by auto
    with move(2) have "ride_id r' = k \<and> driver_matches_status r'"
      using move_keeps_driver_matches [of r r'] by (simp add: lifecycle_move_def)
    with inv show ?thesis
      unfolding move(3) by (intro entries_Map_set) auto
  next
    case new
    then have "ride_id r' = k \<and> driver_matches_status r'"
      by (simp add: driver_matches_status_def)
    with inv show ?thesis
      unfolding new(4) by (intro entries_Map_set) auto
  qed
qed

lemma initial_rides:
  "\<forall>(k, r) \<in> set (rides (storage (initial_server now))). ride_id r = k \<and> driver_matches_status r"
  by (simp add: initial_server_def seedDemoData_def demo_ride_def driver_matches_status_def)

lemma run_keeps_rides:
  "\<forall>(k, r) \<in> set (rides (storage (run (initial_server now) es))).
     ride_id r = k \<and> driver_matches_status r"
proof (induction es rule: rev_induct)
  case Nil
  show ?case using initial_rides by (simp add: run_Nil)
next
  case (snoc e es)
  then show ?case unfolding run_snoc by (rule step_keeps_rides)
qed

lemma run_rides_filed: "rides_filed (storage (run (initial_server now) es))"
  using run_keeps_rides [of now es] by (auto simp: rides_filed_def)


subsection \<open>Drivers and statuses\<close>

text \<open>
  Claim C1, as stated: for every ride reachable through the public operations, the ride's
  \<^verbatim>\<open>driverId\<close> is null if and only if its status is \<^verbatim>\<open>waiting\<close>. It fails: after a
  driver accepted the first demo ride and the customer of the second cancelled that ride
  while it was waiting, the second ride has no driver and is cancelled.
\<close>

theorem driver_null_iff_waiting_counterexample:
  "map driverId (Map_values (rides (storage cancelled_server)))
     = [Some ''demo-driver-1'', None, None]
   \<and> map status (Map_values (rides (storage cancelled_server))) = [Accepted, Cancelled, Waiting]
   \<and> \<not> list_all driver_null_iff_waiting (Map_values (rides (storage cancelled_server)))"
  by code_simp

text \<open>
  Claim C1, amended: in every state the server reaches from start-up, by any sequence of
  requests and channel events, every stored ride that is waiting has no driver, and every
  stored ride without a driver is waiting or cancelled. A ride that is accepted, in
  progress or completed therefore has a driver.
\<close>

theorem driver_matches_status_reachable:
  "\<forall>(k, r) \<in> set (rides (storage (run (initial_server now) es))). driver_matches_status r"
  using run_keeps_rides [of now es] by auto

text \<open>
  The amended claim C1 at the state of the counterexample: the three rides are accepted
  with a driver, cancelled without one, and waiting without one.
\<close>

theorem driver_matches_status_reachable_witness:
  "map driverId (Map_values (rides (storage cancelled_server)))
     = [Some ''demo-driver-1'', None, None]
   \<and> map status (Map_values (rides (storage cancelled_server))) = [Accepted, Cancelled, Waiting]
   \<and> list_all driver_matches_status (Map_values (rides (storage cancelled_server)))"
proof -
  have "cancelled_server =
          run (initial_server ''t0'')
            [RideAccept ''demo-ride-1'' (JString ''demo-driver-1'') 0 0,
             RideCancel ''demo-ride-2'' (JString ''demo-customer-2'') ''t1'']"
    by (simp add: cancelled_server_def accepted_server_def run_def)
  then have "list_all driver_matches_status (Map_values (rides (storage cancelled_server)))"
    using driver_matches_status_reachable
            [of "''t0''" "[RideAccept ''demo-ride-1'' (JString ''demo-driver-1'') 0 0,
                          RideCancel ''demo-ride-2'' (JString ''demo-customer-2'') ''t1'']"]
    by (auto simp: list_all_iff Map_values_def)
  moreover have "map driverId (Map_values (rides (storage cancelled_server)))
                   = [Some ''demo-driver-1'', None, None]"
    by code_simp
  moreover have "map status (Map_values (rides (storage cancelled_server)))
                   = [Accepted, Cancelled, Waiting]"
    by code_simp
  ultimately show ?thesis by simp
qed

subsection \<open>Accepting a ride\<close>

text \<open>
  Claim C3: for a stored ride whose status is not \<^verbatim>\<open>waiting\<close>, an accept request (with a
  body that passes the schema, that is, a string \<^verbatim>\<open>driverId\<close>) is answered with the
  conflict ``Ride is no longer available'', and the server state, hence the stored ride with
  all its fields, is unchanged.
\<close>

theorem accept_not_waiting_conflict:
  assumes "getRide (storage s) rideId = Some ride" and "status ride \<noteq> Waiting"
  shows "fst (rides_accept rideId (JString d) rnd1 rnd2 s)
           = Inl (Conflict ''Ride is no longer available'')
         \<and> snd (rides_accept rideId (JString d) rnd1 rnd2 s) = s
         \<and> getRide (storage (snd (rides_accept rideId (JString d) rnd1 rnd2 s))) rideId = Some ride"
  using assms by (simp add: rides_accept_def rideAcceptSchema_def)

text \<open>Claim C3 at the first demo ride once a driver accepted it.\<close>

theorem accept_not_waiting_conflict_witness:
  "map_option status (getRide (storage accepted_server) ''demo-ride-1'') = Some Accepted
   \<and> fst (rides_accept ''demo-ride-1'' (JString ''demo-driver-2'') 0 0 accepted_server)
       = Inl (Conflict ''Ride is no longer available'')
   \<and> snd (rides_accept ''demo-ride-1'' (JString ''demo-driver-2'') 0 0 accepted_server)
       = accepted_server"
proof -
  have st: "map_option status (getRide (storage accepted_server) ''demo-ride-1'') = Some Accepted"
    by code_simp
  then obtain ride where r: "getRide (storage accepted_server) ''demo-ride-1'' = Some ride"
    and "status ride = Accepted"
    by auto
  then have nw: "status ride \<noteq> Waiting" by simp
  show ?thesis
    using accept_not_waiting_conflict [OF r nw, of "''demo-driver-2''" 0 0] st by simp
qed

lemma getActiveRide_driver:
  assumes "rides_filed st"
    and "getUser st d = Some u" and "role u = Driver"
    and "getRide st activeId = Some a"
    and "status a \<in> set activeStatuses" and "driverId a = Some d"
  shows "getActiveRide st d \<noteq> None"
proof -
  define P where "P = (\<lambda>ride::Ride. if status ride \<notin> set activeStatuses then False
                    else if role u = Customer then customerId ride = d
                    else driverId ride = Some d)"
  have "(activeId, a) \<in> set (rides st)"
    using assms(4) by (simp add: getRide_def Map_get_in_set)
  then have mem: "a \<in> set (Map_values (rides st))"
    by (force simp: Map_values_def)
  have "P a" using assms(3,5,6) by (simp add: P_def)
  with mem have "find P (Map_values (rides st)) \<noteq> None"
    unfolding find_None_iff by blast
  then obtain x where x: "find P (Map_values (rides st)) = Some x" by auto
  then have "x \<in> set (Map_values (rides st))"
    unfolding find_Some_iff by auto
  then obtain k where k: "(k, x) \<in> set (rides st)"
    by (auto simp: Map_values_def)
  then have "ride_id x = k"
    using assms(1) by (auto simp: rides_filed_def)
  with k have "Map_get (rides st) (ride_id x) \<noteq> None"
    by (auto dest: in_set_Map_get)
  then have "getRideWithDetails st (ride_id x) \<noteq> None"
    by (auto simp: getRideWithDetails_def Let_def)
  moreover have "getActiveRide st d =
           (case find P (Map_values (rides st)) of
              None \<Rightarrow> None
            | Some activeRide \<Rightarrow> getRideWithDetails st (ride_id activeRide))"
    using assms(2) by (simp add: getActiveRide_def P_def)
  ultimately show ?thesis
    using x by simp
qed

text \<open>
  Claim C4: when a stored user with role driver is the driver of a stored ride that is
  waiting, accepted or in progress, an accept request of that driver for any stored ride is
  answered with a conflict and changes nothing: no driver is assigned. The storage is one
  in which every ride is stored under its own id, as in every state the server reaches.
\<close>

theorem active_driver_cannot_accept:
  assumes "rides_filed (storage s)"
    and "getUser (storage s) d = Some u" and "role u = Driver"
    and "getRide (storage s) activeId = Some a"
    and "status a \<in> set activeStatuses" and "driverId a = Some d"
    and "getRide (storage s) rideId = Some ride"
  shows "(\<exists>msg. fst (rides_accept rideId (JString d) rnd1 rnd2 s) = Inl (Conflict msg))
         \<and> snd (rides_accept rideId (JString d) rnd1 rnd2 s) = s
         \<and> getRide (storage (snd (rides_accept rideId (JString d) rnd1 rnd2 s))) rideId = Some ride"
proof -
  have "getActiveRide (storage s) d \<noteq> None"
    using assms(1-6) by (rule getActiveRide_driver)
  then obtain x where "getActiveRide (storage s) d = Some x" by auto
  with assms(7) show ?thesis
    by (simp add: rides_accept_def rideAcceptSchema_def)
qed

text \<open>
  Claim C4 at the first demo driver, who accepted the first demo ride and asks for the
  second, which is waiting.
\<close>

theorem active_driver_cannot_accept_witness:
  "map_option role (getUser (storage accepted_server) ''demo-driver-1'') = Some Driver
   \<and> map_option status (getRide (storage accepted_server) ''demo-ride-1'') = Some Accepted
   \<and> map_option driverId (getRide (storage accepted_server) ''demo-ride-1'')
       = Some (Some ''demo-driver-1'')
   \<and> map_option status (getRide (storage accepted_server) ''demo-ride-2'') = Some Waiting
   \<and> fst (rides_accept ''demo-ride-2'' (JString ''demo-driver-1'') 0 0 accepted_server)
       = Inl (Conflict ''You already have an active ride'')
   \<and> snd (rides_accept ''demo-ride-2'' (JString ''demo-driver-1'') 0 0 accepted_server)
       = accepted_server"
proof -
  have filed: "rides_filed (storage accepted_server)"
    unfolding accepted_server_def by (rule run_rides_filed)
  have u: "map_option role (getUser (storage accepted_server) ''demo-driver-1'') = Some Driver"
    by code_simp
  have a1: "map_option status (getRide (storage accepted_server) ''demo-ride-1'') = Some Accepted"
    by code_simp
  have a2: "map_option driverId (getRide (storage accepted_server) ''demo-ride-1'')
              = Some (Some ''demo-driver-1'')"
    by code_simp
  have r2: "map_option status (getRide (storage accepted_server) ''demo-ride-2'') = Some Waiting"
    by code_simp
  have res: "fst (rides_accept ''demo-ride-2'' (JString ''demo-driver-1'') 0 0 accepted_server)
               = Inl (Conflict ''You already have an active ride'')"
    by code_simp
  from u obtain usr where usr: "getUser (storage accepted_server) ''demo-driver-1'' = Some usr"
    and ro: "role usr = Driver"
    by auto
  from a1 a2 obtain a where a: "getRide (storage accepted_server) ''demo-ride-1'' = Some a"
    and sa: "status a = Accepted" and da: "driverId a = Some ''demo-driver-1''"
    by auto
  from sa have act: "status a \<in> set activeStatuses" by (simp add: activeStatuses_def)
  from r2 obtain ride where ride: "getRide (storage accepted_server) ''demo-ride-2'' = Some ride"
    by auto
  from active_driver_cannot_accept [OF filed usr ro a act da ride, of 0 0] u a1 a2 r2 res
  show ?thesis by simp
qed

text \<open>
  Claim C10: when the \<^verbatim>\<open>driverId\<close> of an accept request names no stored user, the lookup
  of that user's active ride returns nothing, so the request succeeds on a waiting ride:
  the stored ride gets the unknown driver and the status \<^verbatim>\<open>accepted\<close>.
\<close>

theorem accept_unknown_driver:
  assumes "getUser (storage s) d = None"
    and "getRide (storage s) rideId = Some ride"
    and "status ride = Waiting"
  shows "getActiveRide (storage s) d = None
         \<and> (\<exists>r. fst (rides_accept rideId (JString d) rnd1 rnd2 s) = Inr (Some r)
                \<and> getRide (storage (snd (rides_accept rideId (JString d) rnd1 rnd2 s))) rideId = Some r
                \<and> driverId r = Some d \<and> status r = Accepted)"
proof -
  have n: "getActiveRide (storage s) d = None"
    using assms(1) by (simp add: getActiveRide_def)
  have p: "rideAcceptSchema (JString d) = Some d"
    by (simp add: rideAcceptSchema_def)
  show ?thesis
    using n rides_accept_success [OF p assms(2,3) n, of rnd1 rnd2]
    by (simp add: getRide_def Map_get_Map_set)
qed

text \<open>Claim C10 at start-up, for the first demo ride and a driver id nobody has.\<close>

theorem accept_unknown_driver_witness:
  "getUser (storage (initial_server ''t0'')) ''ghost'' = None
   \<and> map_option status (getRide (storage (initial_server ''t0'')) ''demo-ride-1'') = Some Waiting
   \<and> map_option driverId
        (getRide (storage (snd (rides_accept ''demo-ride-1'' (JString ''ghost'') 0 0
                                  (initial_server ''t0'')))) ''demo-ride-1'')
       = Some (Some ''ghost'')
   \<and> map_option status
        (getRide (storage (snd (rides_accept ''demo-ride-1'' (JString ''ghost'') 0 0
                                  (initial_server ''t0'')))) ''demo-ride-1'')
       = Some Accepted"
proof -
  have u: "getUser (storage (initial_server ''t0'')) ''ghost'' = None"
    by code_simp
  have st: "map_option status (getRide (storage (initial_server ''t0'')) ''demo-ride-1'') = Some Waiting"
    by code_simp
  then obtain ride where r: "getRide (storage (initial_server ''t0'')) ''demo-ride-1'' = Some ride"
    and w: "status ride = Waiting"
    by auto
  from accept_unknown_driver [OF u r w, of 0 0] u st show ?thesis
    by auto
qed

subsection \<open>Cancelling a ride\<close>

text \<open>What the cancel guard does for a completed ride, and for a caller named by a string.\<close>

lemma cancel_completed_conflict:
  assumes "getRide (storage s) rideId = Some ride" and "status ride = Completed"
  shows "rides_cancel rideId b now s = (Inl (Conflict ''Ride cannot be cancelled''), s)"
  using assms by (simp add: rides_cancel_def)

lemma cancel_stranger_forbidden:
  assumes "getRide (storage s) rideId = Some ride"
    and "status ride = Waiting \<or> status ride = Accepted"
    and "u \<noteq> customerId ride" and "driverId ride \<noteq> Some u"
  shows "rides_cancel rideId (JString u) now s = (Inl (Forbidden ''Not authorized''), s)"
proof -
  have "\<not> strict_eq_nullable (driverId ride) (JString u)"
    using assms(4) by (cases "driverId ride") auto
  with assms show ?thesis
    by (auto simp: rides_cancel_def)
qed

lemma cancel_succeeds_only:
  assumes "fst (rides_cancel rideId b now s) = Inr x"
  shows "\<exists>ride. getRide (storage s) rideId = Some ride
           \<and> (status ride = Waiting \<or> status ride = Accepted)
           \<and> (strict_eq_string (customerId ride) b \<or> strict_eq_nullable (driverId ride) b)
           \<and> x = Some (ride\<lparr>status := Cancelled, completedAt := Some now\<rparr>)"
proof (cases "\<exists>ride. getRide (storage s) rideId = Some ride
               \<and> (status ride = Waiting \<or> status ride = Accepted)
               \<and> (strict_eq_string (customerId ride) b \<or> strict_eq_nullable (driverId ride) b)")
  case True
  then obtain ride where h: "getRide (storage s) rideId = Some ride"
    "status ride = Waiting \<or> status ride = Accepted"
    "strict_eq_string (customerId ride) b \<or> strict_eq_nullable (driverId ride) b"
    by blast
  with assms rides_cancel_success(1) [OF h, of now] show ?thesis by auto
next
  case False
  with assms show ?thesis
    by (auto simp: rides_cancel_def split: option.splits if_splits)
qed

text \<open>
  Claim C8 says that cancel succeeds only for the ride's customer or its assigned driver,
  and answers Forbidden otherwise. The guard compares the body's \<^verbatim>\<open>userId\<close> with the
  ride's \<^verbatim>\<open>driverId\<close>, which is null while the ride is waiting: a request whose
  \<^verbatim>\<open>userId\<close> is null passes the guard and cancels the first demo ride, which belongs to
  the first demo customer and has no driver.
\<close>

theorem cancel_null_userId_succeeds:
  "map_option customerId (getRide (storage (initial_server ''t0'')) ''demo-ride-1'')
     = Some ''demo-customer-1''
   \<and> map_option driverId (getRide (storage (initial_server ''t0'')) ''demo-ride-1'') = Some None
   \<and> map_option status (getRide (storage (initial_server ''t0'')) ''demo-ride-1'') = Some Waiting
   \<and> map_sum status_code (map_option status)
        (fst (rides_cancel ''demo-ride-1'' JNull ''t1'' (initial_server ''t0'')))
       = Inr (Some Cancelled)
   \<and> map_option status
        (getRide (storage (snd (rides_cancel ''demo-ride-1'' JNull ''t1'' (initial_server ''t0''))))
           ''demo-ride-1'')
       = Some Cancelled"
  by code_simp

subsection \<open>Completing and rating a ride\<close>

lemma rideCompleteSchema_rating:
  assumes "rideCompleteSchema body = Some (who, Some r, fb)"
  shows "1 \<le> r \<and> r \<le> 5"
  using assms
  by (auto simp: rideCompleteSchema_def parse_rating_def split: option.splits json.splits if_splits)

lemma spread_rating_updates: "spread_user u (rating_updates u r) = rated u r"
  by (simp add: spread_user_def rating_updates_def rated_def Let_def add.commute)

lemma rating_branch_no_rating [simp]: "snd (rating_branch ride who None fb st) = st"
  by (simp add: rating_branch_def)

lemma rating_branch_rated:
  assumes "r \<noteq> 0" and "other_party ride who = Some uid" and "getUser st uid = Some u"
  shows "users (snd (rating_branch ride who (Some r) fb st)) = Map_set uid (rated u r) (users st)"
proof (cases who)
  case Customer
  with assms(2) have d: "driverId ride = Some uid" "truthy_string uid"
    by (auto simp: other_party_def truthy_def split: if_splits option.splits)
  with assms(1,3) Customer show ?thesis
    by (simp add: rating_branch_def truthy_num_def updateUser_found getUser_def
        spread_rating_updates)
next
  case Driver
  with assms(2) have "customerId ride = uid"
    by (simp add: other_party_def)
  with assms(1,3) Driver show ?thesis
    by (simp add: rating_branch_def truthy_num_def updateUser_found getUser_def
        spread_rating_updates)
qed

lemma getUser_after_complete:
  assumes "getRide (storage s) rideId = Some ride"
    and "rideCompleteSchema body = Some (who, rating, fb)"
  shows "users (storage (snd (rides_complete rideId body now s)))
           = users (snd (rating_branch ride who rating fb (storage s)))"
  by (simp add: rides_complete_found(2) [OF assms])

lemma complete_rates_other_party:
  assumes "getRide (storage s) rideId = Some ride"
    and "rideCompleteSchema body = Some (who, Some r, fb)"
    and "other_party ride who = Some uid"
    and "getUser (storage s) uid = Some u"
  shows "getUser (storage (snd (rides_complete rideId body now s))) uid = Some (rated u r)"
proof -
  have "r \<noteq> 0" using rideCompleteSchema_rating [OF assms(2)] by auto
  then show ?thesis
    using getUser_after_complete [OF assms(1,2), of now] rating_branch_rated [OF _ assms(3,4), of r fb]
    by (simp add: getUser_def Map_get_Map_set)
qed

lemma complete_returns_ride:
  assumes "getRide (storage s) rideId = Some ride"
    and "rideCompleteSchema body = Some (who, rating, fb)"
  shows "\<exists>r'. fst (rides_complete rideId body now s) = Inr (Some r')
           \<and> getRide (storage (snd (rides_complete rideId body now s))) rideId = Some r'
           \<and> status r' = (if status ride = In_progress \<and> \<not> truthy (completedAt ride)
                           then Completed else status ride)
           \<and> completedAt r' = (if status ride = In_progress \<and> \<not> truthy (completedAt ride)
                                then Some now else completedAt ride)
           \<and> actualFare r' = (if status ride = In_progress \<and> \<not> truthy (completedAt ride)
                               then Some (estimatedFare ride) else actualFare ride)"
  using rides_complete_found [OF assms, of now]
  by (simp add: getRide_def Map_get_Map_set rating_branch_spread completion_updates_spread)

lemma spread_customerId:
  "customerId (spread_ride ride (completion_updates ride now
      @ fst (rating_branch ride who rating fb st))) = customerId ride"
  by (simp add: rating_branch_def completion_updates_def spread_ride_def split: option.splits)







text \<open>
  Claim C2, as stated, says that a second call never double-increments the completed rides
  of the rated party for the same rating. It fails: when the driver sends the same complete
  request with the rating 5 twice, the customer's completed rides go from 12 to 13 and then
  to 14.
\<close>

theorem complete_twice_counts_twice_counterexample:
  "map_option status (getRide (storage in_progress_server) ''demo-ride-1'') = Some In_progress
   \<and> map_option completedRides (getUser (storage in_progress_server) ''demo-customer-1'') = Some 12
   \<and> map_option completedRides
        (getUser (storage (run in_progress_server
                            [RideComplete ''demo-ride-1'' (driver_rates 5) ''t2'']))
           ''demo-customer-1'') = Some 13
   \<and> map_option completedRides
        (getUser (storage (run in_progress_server
                            [RideComplete ''demo-ride-1'' (driver_rates 5) ''t2'',
                             RideComplete ''demo-ride-1'' (driver_rates 5) ''t3'']))
           ''demo-customer-1'') = Some 14
   \<and> map_option customerRating
        (getRide (storage (run in_progress_server
                            [RideComplete ''demo-ride-1'' (driver_rates 5) ''t2'',
                             RideComplete ''demo-ride-1'' (driver_rates 5) ''t3'']))
           ''demo-ride-1'') = Some (Some 5)"
  by code_simp

text \<open>
  Claim C2, amended: a complete request on a ride in progress with no completion time sets
  the status to completed, the completion time to now and the actual fare to the estimated
  fare; a second request changes none of the three; a request without a rating changes no
  user, so a request without a rating followed by one with a rating adds exactly one
  completed ride to the rated party.
\<close>

theorem complete_status_once:
  assumes "getRide (storage s) rideId = Some ride"
    and "status ride = In_progress" and "\<not> truthy (completedAt ride)"
    and "rideCompleteSchema body1 = Some (who1, rating1, fb1)"
    and "rideCompleteSchema body2 = Some (who2, rating2, fb2)"
    and "s1 = snd (rides_complete rideId body1 now1 s)"
    and "s2 = snd (rides_complete rideId body2 now2 s1)"
  shows "(\<exists>r1. getRide (storage s1) rideId = Some r1 \<and> status r1 = Completed
            \<and> completedAt r1 = Some now1 \<and> actualFare r1 = Some (estimatedFare ride))
         \<and> (\<exists>r2. getRide (storage s2) rideId = Some r2 \<and> status r2 = Completed
              \<and> completedAt r2 = Some now1 \<and> actualFare r2 = Some (estimatedFare ride))
         \<and> (rating1 = None \<longrightarrow> users (storage s1) = users (storage s))
         \<and> (rating2 = None \<longrightarrow> users (storage s2) = users (storage s1))
         \<and> (\<forall>r uid u. rating1 = None \<and> rating2 = Some r \<and> other_party ride who2 = Some uid
                \<and> getUser (storage s) uid = Some u
              \<longrightarrow> map_option completedRides (getUser (storage s2) uid)
                    = Some (completedRides u + 1))"
proof -
  obtain r1 where r1: "getRide (storage s1) rideId = Some r1" "status r1 = Completed"
    "completedAt r1 = Some now1" "actualFare r1 = Some (estimatedFare ride)"
    using complete_returns_ride [OF assms(1,4), of now1] assms(2,3,6) by auto
  obtain r2 where r2: "getRide (storage s2) rideId = Some r2" "status r2 = Completed"
    "completedAt r2 = Some now1" "actualFare r2 = Some (estimatedFare ride)"
    using complete_returns_ride [OF r1(1) assms(5), of now2] r1(2-4) assms(7) by auto
  have u1: "users (storage s1) = users (storage s)" if "rating1 = None"
    using getUser_after_complete [OF assms(1,4), of now1] that assms(6) by simp
  have u2: "users (storage s2) = users (storage s1)" if "rating2 = None"
    using getUser_after_complete [OF r1(1) assms(5), of now2] that assms(7) by simp
  have same: "other_party r1 who2 = other_party ride who2"
    using rides_complete_found(2) [OF assms(1,4), of now1] r1(1) assms(6)
    by (auto simp: getRide_def Map_get_Map_set other_party_def rating_branch_spread
        completion_updates_spread spread_customerId split: UserRole.splits)
  have once: "map_option completedRides (getUser (storage s2) uid) = Some (completedRides u + 1)"
    if "rating1 = None" "rating2 = Some r" "other_party ride who2 = Some uid"
      "getUser (storage s) uid = Some u" for r uid u
  proof -
    have "getUser (storage s1) uid = Some u"
      using u1 [OF that(1)] that(4) by (simp add: getUser_def)
    then have "getUser (storage s2) uid = Some (rated u r)"
      using complete_rates_other_party [OF r1(1) assms(5) [unfolded that(2)], of uid u now2]
        that(3) same assms(7)
      by simp
    then show ?thesis by (simp add: rated_def)
  qed
  have first: "\<exists>r1. getRide (storage s1) rideId = Some r1 \<and> status r1 = Completed
            \<and> completedAt r1 = Some now1 \<and> actualFare r1 = Some (estimatedFare ride)"
    using r1 by blast
  have second: "\<exists>r2. getRide (storage s2) rideId = Some r2 \<and> status r2 = Completed
              \<and> completedAt r2 = Some now1 \<and> actualFare r2 = Some (estimatedFare ride)"
    using r2 by blast
  from first second u1 u2 once show ?thesis
    by (intro conjI impI allI) auto
qed

text \<open>
  The amended claim C2 at the first demo ride in progress: the driver completes it without
  a rating and then sends a rating; the ride is completed at the time of the first request,
  and the customer has one more completed ride.
\<close>

theorem complete_status_once_witness:
  "map_option status (getRide (storage in_progress_server) ''demo-ride-1'') = Some In_progress
   \<and> map_option completedAt (getRide (storage in_progress_server) ''demo-ride-1'') = Some None
   \<and> map_option completedRides (getUser (storage in_progress_server) ''demo-customer-1'') = Some 12
   \<and> map_option status
        (getRide (storage (snd (rides_complete ''demo-ride-1'' (no_rating ''driver'') ''t2''
                                  in_progress_server))) ''demo-ride-1'') = Some Completed
   \<and> map_option status
        (getRide (storage (snd (rides_complete ''demo-ride-1'' (driver_rates 5) ''t3''
                             (snd (rides_complete ''demo-ride-1'' (no_rating ''driver'') ''t2''
                                     in_progress_server)))))
           ''demo-ride-1'') = Some Completed
   \<and> map_option completedAt
        (getRide (storage (snd (rides_complete ''demo-ride-1'' (driver_rates 5) ''t3''
                             (snd (rides_complete ''demo-ride-1'' (no_rating ''driver'') ''t2''
                                     in_progress_server)))))
           ''demo-ride-1'') = Some (Some ''t2'')
   \<and> map_option completedRides
        (getUser (storage (snd (rides_complete ''demo-ride-1'' (driver_rates 5) ''t3''
                             (snd (rides_complete ''demo-ride-1'' (no_rating ''driver'') ''t2''
                                     in_progress_server)))))
           ''demo-customer-1'') = Some 13"
proof -
  have st: "map_option status (getRide (storage in_progress_server) ''demo-ride-1'') = Some In_progress"
    by code_simp
  have ca: "map_option completedAt (getRide (storage in_progress_server) ''demo-ride-1'') = Some None"
    by code_simp
  have cu: "map_option customerId (getRide (storage in_progress_server) ''demo-ride-1'')
              = Some ''demo-customer-1''"
    by code_simp
  have cr: "map_option completedRides (getUser (storage in_progress_server) ''demo-customer-1'')
              = Some 12"
    by code_simp
  from st ca cu obtain ride where ride: "getRide (storage in_progress_server) ''demo-ride-1'' = Some ride"
    and s: "status ride = In_progress" and c: "completedAt ride = None"
    and k: "customerId ride = ''demo-customer-1''"
    by auto
  from c have nt: "\<not> truthy (completedAt ride)" by (simp add: truthy_def)
  from cr obtain u where u: "getUser (storage in_progress_server) ''demo-customer-1'' = Some u"
    and n: "completedRides u = 12"
    by auto
  have b1: "rideCompleteSchema (no_rating ''driver'') = Some (Driver, None, None)"
    by (simp add: rideCompleteSchema_def no_rating_def parse_completedBy_def parse_rating_def
        parse_feedback_def)
  have b2: "rideCompleteSchema (driver_rates 5) = Some (Driver, Some 5, None)"
    by (simp add: rideCompleteSchema_def driver_rates_def parse_completedBy_def parse_rating_def
        parse_feedback_def)
  have o: "other_party ride Driver = Some ''demo-customer-1''"
    using k by (simp add: other_party_def)
  from complete_status_once [OF ride s nt b1 b2 refl refl, of "''t2''" "''t3''"] o u n st ca cr
  show ?thesis by auto
qed

subsection \<open>The subscription registry\<close>

lemma leave_ride_get:
  "Map_get (leave_ride c prev m) rid =
     (if rid = prev
      then (case Map_get m prev of
              None \<Rightarrow> None
            | Some cs \<Rightarrow> if removeAll c cs = [] then None else Some (removeAll c cs))
      else Map_get m rid)"
  by (simp add: leave_ride_def Set_delete_def Set_size_def Let_def Map_get_Map_set
      Map_get_Map_delete split: option.splits)

lemma leave_ride_distinct:
  "distinct (map fst m) \<Longrightarrow> distinct (map fst (leave_ride c prev m))"
  by (simp add: leave_ride_def Let_def distinct_Map_set distinct_Map_delete split: option.splits)

lemma leave_previous_distinct:
  "distinct (map fst m) \<Longrightarrow> distinct (map fst (leave_previous c v m))"
  by (simp add: leave_previous_def leave_ride_distinct split: option.splits)

text \<open>
  After the connection left its previous ride, every set is part of a set there was, none
  is empty, and the connection is in no set of the ride it had subscribed to.
\<close>

lemma leave_previous_get:
  assumes "Map_get (leave_previous c v m) r = Some cs"
    and "\<forall>r cs. Map_get m r = Some cs \<longrightarrow> cs \<noteq> []"
  shows "cs \<noteq> [] \<and> (\<exists>cs0. Map_get m r = Some cs0 \<and> set cs \<subseteq> set cs0)
         \<and> (v = Some r \<and> r \<noteq> [] \<longrightarrow> c \<notin> set cs)"
proof (cases "\<exists>prev. v = Some prev \<and> truthy_string prev")
  case True
  then obtain prev where v: "v = Some prev" "truthy_string prev" by blast
  then have eq: "leave_previous c v m = leave_ride c prev m"
    by (simp add: leave_previous_def)
  have "Map_get (leave_ride c prev m) r = Some cs"
    using assms(1) eq by simp
  then show ?thesis
    using assms(2) v
    by (auto simp: leave_ride_get split: if_splits option.splits)
next
  case False
  then have "leave_previous c v m = m"
    by (auto simp: leave_previous_def split: option.splits)
  with assms False show ?thesis
    by (auto simp: truthy_string_def)
qed

lemma on_subscribe_effect:
  assumes "truthy_string rid"
  shows "fst (on_subscribe c (Some rid) v s) = Some rid"
    and "Map_get (rideSubscriptions (snd (on_subscribe c (Some rid) v s))) r =
           (if r = rid
            then Some (Set_add c (case Map_get (leave_previous c v (rideSubscriptions s)) rid of
                                    None \<Rightarrow> [] | Some cs \<Rightarrow> cs))
            else Map_get (leave_previous c v (rideSubscriptions s)) r)"
    and "sockets (snd (on_subscribe c (Some rid) v s)) = sockets s"
    and "outbox (snd (on_subscribe c (Some rid) v s)) =
           outbox s @ (case Map_get (rideLocations s) rid of
                         None \<Rightarrow> [] | Some l \<Rightarrow> [(c, Location_update_msg l)])"
    and "distinct (map fst (rideSubscriptions s)) \<Longrightarrow>
         distinct (map fst (rideSubscriptions (snd (on_subscribe c (Some rid) v s))))"
  using assms
  by (auto simp: on_subscribe_def Let_def Map_has_def Map_get_Map_set send_def
      distinct_Map_set leave_previous_distinct split: option.splits)


lemma Set_add_members: "set (Set_add c cs) = insert c (set cs)" "Set_add c cs \<noteq> []"
  by (auto simp: Set_add_def)

lemma consistent_after_leave:
  assumes inv: "registry_consistent s"
    and sk: "Map_get (sockets s) c = Some sk"
    and m': "rideSubscriptions s' = leave_previous c (subscribedRideId sk) (rideSubscriptions s)"
    and \<sigma>': "sockets s' = Map_set c sk' (sockets s)"
    and v': "subscribedRideId sk' = None \<or> subscribedRideId sk' = subscribedRideId sk"
  shows "registry_consistent s'"
proof -
  from inv have d: "distinct (map fst (rideSubscriptions s))"
    and ne: "\<forall>r cs. Map_get (rideSubscriptions s) r = Some cs \<longrightarrow> cs \<noteq> []"
    and mem: "\<And>r cs x. Map_get (rideSubscriptions s) r = Some cs \<Longrightarrow> x \<in> set cs \<Longrightarrow>
               \<exists>k. Map_get (sockets s) x = Some k \<and> subscribedRideId k = Some r"
    and nonempty: "\<And>x k. Map_get (sockets s) x = Some k \<Longrightarrow> subscribedRideId k \<noteq> Some []"
    unfolding registry_consistent_def by blast+
  have "distinct (map fst (rideSubscriptions s'))"
    unfolding m' using d by (rule leave_previous_distinct)
  moreover have "cs \<noteq> [] \<and> (\<forall>x \<in> set cs. \<exists>k. Map_get (sockets s') x = Some k
                                \<and> subscribedRideId k = Some r)"
    if g: "Map_get (rideSubscriptions s') r = Some cs" for r cs
  proof -
    from leave_previous_get [OF g [unfolded m'] ne]
    obtain cs0 where cs: "cs \<noteq> []" and cs0: "Map_get (rideSubscriptions s) r = Some cs0"
      and sub: "set cs \<subseteq> set cs0"
      and gone: "subscribedRideId sk = Some r \<and> r \<noteq> [] \<longrightarrow> c \<notin> set cs"
      by blast
    have "\<exists>k. Map_get (sockets s') x = Some k \<and> subscribedRideId k = Some r"
      if x: "x \<in> set cs" for x
    proof -
      from x sub have "x \<in> set cs0" by auto
      from mem [OF cs0 this] obtain k where k: "Map_get (sockets s) x = Some k"
        "subscribedRideId k = Some r"
        by blast
      have "x \<noteq> c"
      proof
        assume "x = c"
        with k sk have "subscribedRideId sk = Some r" by simp
        moreover from this nonempty [OF sk] have "r \<noteq> []" by auto
        ultimately show False using gone x \<open>x = c\<close> by simp
      qed
      with k show ?thesis by (simp add: \<sigma>' Map_get_Map_set)
    qed
    with cs show ?thesis by blast
  qed
  moreover have "subscribedRideId k \<noteq> Some []" if "Map_get (sockets s') x = Some k" for x k
  proof (cases "x = c")
    case True
    with that have "k = sk'" by (simp add: \<sigma>' Map_get_Map_set)
    with v' nonempty [OF sk] show ?thesis by auto
  next
    case False
    with that have "Map_get (sockets s) x = Some k" by (simp add: \<sigma>' Map_get_Map_set)
    then show ?thesis by (rule nonempty)
  qed
  ultimately show ?thesis
    unfolding registry_consistent_def by blast
qed

lemma consistent_after_subscribe:
  assumes inv: "registry_consistent s"
    and sk: "Map_get (sockets s) c = Some sk"
    and rid: "truthy_string rid"
    and m': "\<And>r. Map_get (rideSubscriptions s') r =
           (if r = rid
            then Some (Set_add c (case Map_get (leave_previous c (subscribedRideId sk)
                                                 (rideSubscriptions s)) rid of
                                    None \<Rightarrow> [] | Some cs \<Rightarrow> cs))
            else Map_get (leave_previous c (subscribedRideId sk) (rideSubscriptions s)) r)"
    and d': "distinct (map fst (rideSubscriptions s'))"
    and \<sigma>': "sockets s' = Map_set c (sk\<lparr>subscribedRideId := Some rid\<rparr>) (sockets s)"
  shows "registry_consistent s'
         \<and> c \<in> set (subscribers_of s' rid)
         \<and> (\<forall>r. r \<noteq> rid \<longrightarrow> c \<notin> set (subscribers_of s' r))"
proof -
  from inv have ne: "\<forall>r cs. Map_get (rideSubscriptions s) r = Some cs \<longrightarrow> cs \<noteq> []"
    and mem: "\<And>r cs x. Map_get (rideSubscriptions s) r = Some cs \<Longrightarrow> x \<in> set cs \<Longrightarrow>
               \<exists>k. Map_get (sockets s) x = Some k \<and> subscribedRideId k = Some r"
    and nonempty: "\<And>x k. Map_get (sockets s) x = Some k \<Longrightarrow> subscribedRideId k \<noteq> Some []"
    unfolding registry_consistent_def by blast+
  let ?m1 = "leave_previous c (subscribedRideId sk) (rideSubscriptions s)"
  have left: "cs \<noteq> [] \<and> (\<forall>x \<in> set cs. x \<noteq> c \<longrightarrow>
                 (\<exists>k. Map_get (sockets s) x = Some k \<and> subscribedRideId k = Some r))
              \<and> (r \<noteq> rid \<longrightarrow> c \<notin> set cs)"
    if g: "Map_get ?m1 r = Some cs" for r cs
  proof -
    from leave_previous_get [OF g ne]
    obtain cs0 where cs: "cs \<noteq> []" and cs0: "Map_get (rideSubscriptions s) r = Some cs0"
      and sub: "set cs \<subseteq> set cs0"
      and gone: "subscribedRideId sk = Some r \<and> r \<noteq> [] \<longrightarrow> c \<notin> set cs"
      by blast
    have "c \<notin> set cs"
    proof
      assume x: "c \<in> set cs"
      with sub have "c \<in> set cs0" by auto
      from mem [OF cs0 this] sk have "subscribedRideId sk = Some r" by simp
      moreover from this nonempty [OF sk] have "r \<noteq> []" by auto
      ultimately show False using gone x by simp
    qed
    moreover have "\<exists>k. Map_get (sockets s) x = Some k \<and> subscribedRideId k = Some r"
      if "x \<in> set cs" for x
      using that sub mem [OF cs0, of x] by auto
    ultimately show ?thesis using cs by blast
  qed
  have "cs \<noteq> [] \<and> (\<forall>x \<in> set cs. \<exists>k. Map_get (sockets s') x = Some k
                                \<and> subscribedRideId k = Some r)"
    if g: "Map_get (rideSubscriptions s') r = Some cs" for r cs
  proof (cases "r = rid")
    case True
    with g m' [of rid]
    have cs: "cs = Set_add c (case Map_get ?m1 rid of None \<Rightarrow> [] | Some cs \<Rightarrow> cs)"
      by simp
    have "\<exists>k. Map_get (sockets s') x = Some k \<and> subscribedRideId k = Some rid"
      if x: "x \<in> set cs" for x
    proof (cases "x = c")
      case True
      then show ?thesis by (simp add: \<sigma>' Map_get_Map_set)
    next
      case False
      with x cs obtain old where "Map_get ?m1 rid = Some old" "x \<in> set old"
        by (auto simp: Set_add_members split: option.splits)
      with left [of rid old] False show ?thesis
        by (auto simp: \<sigma>' Map_get_Map_set)
    qed
    with cs True show ?thesis by (simp add: Set_add_members)
  next
    case False
    with g m' [of r] have g1: "Map_get ?m1 r = Some cs" by simp
    from left [OF g1] False show ?thesis
      by (auto simp: \<sigma>' Map_get_Map_set)
  qed
  moreover have "subscribedRideId k \<noteq> Some []" if "Map_get (sockets s') x = Some k" for x k
  proof (cases "x = c")
    case True
    with that have "k = sk\<lparr>subscribedRideId := Some rid\<rparr>" by (simp add: \<sigma>' Map_get_Map_set)
    with rid show ?thesis by (auto simp: truthy_string_def)
  next
    case False
    with that have "Map_get (sockets s) x = Some k" by (simp add: \<sigma>' Map_get_Map_set)
    then show ?thesis by (rule nonempty)
  qed
  ultimately have "registry_consistent s'"
    unfolding registry_consistent_def using d' by blast
  moreover have "c \<in> set (subscribers_of s' rid)"
    by (simp add: subscribers_of_def m' Set_add_members)
  moreover have "c \<notin> set (subscribers_of s' r)" if "r \<noteq> rid" for r
    using that left [of r] by (auto simp: subscribers_of_def m' split: option.splits)
  ultimately show ?thesis by blast
qed


lemma consistent_same_socket:
  assumes inv: "registry_consistent s"
    and sk: "Map_get (sockets s) c = Some sk"
    and m': "rideSubscriptions s' = rideSubscriptions s"
    and \<sigma>': "sockets s' = Map_set c sk' (sockets s)"
    and v': "subscribedRideId sk' = subscribedRideId sk"
  shows "registry_consistent s'"
proof -
  have "\<exists>k. Map_get (sockets s') x = Some k \<and> subscribedRideId k = r"
    if "Map_get (sockets s) x = Some k0" "subscribedRideId k0 = r" for x k0 r
    using that sk v' by (cases "x = c") (auto simp: \<sigma>' Map_get_Map_set)
  moreover have "\<exists>k0. Map_get (sockets s) x = Some k0 \<and> subscribedRideId k0 = subscribedRideId k"
    if "Map_get (sockets s') x = Some k" for x k
    using that sk v' by (cases "x = c") (auto simp: \<sigma>' Map_get_Map_set)
  ultimately show ?thesis
    using inv unfolding registry_consistent_def m' by metis
qed

lemma consistent_unchanged:
  assumes "registry_consistent s"
    and "rideSubscriptions s' = rideSubscriptions s" and "sockets s' = sockets s"
  shows "registry_consistent s'"
  using assms by (simp add: registry_consistent_def)

lemma consistent_after_connect:
  assumes inv: "registry_consistent s"
    and new: "Map_get (sockets s) c = None"
    and m': "rideSubscriptions s' = rideSubscriptions s"
    and \<sigma>': "sockets s' = Map_set c \<lparr>subscribedRideId = None, is_open = True\<rparr> (sockets s)"
  shows "registry_consistent s'"
proof -
  have "\<exists>k. Map_get (sockets s') x = Some k \<and> subscribedRideId k = r"
    if "Map_get (sockets s) x = Some k0" "subscribedRideId k0 = r" for x k0 r
    using that new by (cases "x = c") (auto simp: \<sigma>' Map_get_Map_set)
  moreover have "subscribedRideId k \<noteq> Some []" if "Map_get (sockets s') x = Some k" for x k
    using that inv unfolding registry_consistent_def
    by (cases "x = c") (auto simp: \<sigma>' Map_get_Map_set)
  ultimately show ?thesis
    using inv unfolding registry_consistent_def m' by metis
qed

lemma on_unsubscribe_effect:
  "rideSubscriptions (snd (on_unsubscribe c v s)) = leave_previous c v (rideSubscriptions s)"
  "sockets (snd (on_unsubscribe c v s)) = sockets s"
  "fst (on_unsubscribe c v s) = None \<or> fst (on_unsubscribe c v s) = v"
  by (simp_all add: on_unsubscribe_def leave_previous_def split: option.splits)

lemma on_location_update_registry:
  "rideSubscriptions (on_location_update c rideId d now s) = rideSubscriptions s"
  "sockets (on_location_update c rideId d now s) = sockets s"
  by (simp_all add: on_location_update_def Let_def split: option.splits)

lemma rest_registry:
  "rideSubscriptions (snd (auth_connect w r newId randomName rnd1 rnd2 rnd3 s)) = rideSubscriptions s"
  "sockets (snd (auth_connect w r newId randomName rnd1 rnd2 rnd3 s)) = sockets s"
  "rideSubscriptions (snd (rides_request parsed newId now s)) = rideSubscriptions s"
  "sockets (snd (rides_request parsed newId now s)) = sockets s"
  "rideSubscriptions (snd (rides_accept rideId b rnd1 rnd2 s)) = rideSubscriptions s"
  "sockets (snd (rides_accept rideId b rnd1 rnd2 s)) = sockets s"
  "rideSubscriptions (snd (rides_start rideId b now s)) = rideSubscriptions s"
  "sockets (snd (rides_start rideId b now s)) = sockets s"
  "rideSubscriptions (snd (rides_complete rideId body now s)) = rideSubscriptions s"
  "sockets (snd (rides_complete rideId body now s)) = sockets s"
  "rideSubscriptions (snd (rides_cancel rideId b now s)) = rideSubscriptions s"
  "sockets (snd (rides_cancel rideId b now s)) = sockets s"
  by (simp_all add: auth_connect_def rides_request_def rides_accept_def rides_start_def
      rides_complete_def rides_cancel_def Let_def split_beta split: option.splits)

lemma frame_consistent:
  assumes inv: "registry_consistent s"
    and sk: "Map_get (sockets s) c = Some sk"
  shows "registry_consistent
           ((snd (on_message c parsed now (subscribedRideId sk) s))
              \<lparr>sockets := Map_set c
                  (sk\<lparr>subscribedRideId := fst (on_message c parsed now (subscribedRideId sk) s)\<rparr>)
                  (sockets (snd (on_message c parsed now (subscribedRideId sk) s)))\<rparr>)"
    (is "registry_consistent ?s'")
proof (cases parsed)
  case None
  then show ?thesis
    by (intro consistent_same_socket [OF inv sk]) (simp_all add: on_message_def)
next
  case (Some m)
  show ?thesis
  proof (cases "msg_type m")
    case Location_update
    with Some show ?thesis
      by (intro consistent_same_socket [OF inv sk])
         (simp_all add: on_message_def on_location_update_registry)
  next
    case Ride_status
    with Some show ?thesis
      by (intro consistent_same_socket [OF inv sk]) (simp_all add: on_message_def)
  next
    case Unsubscribe
    with Some have eq: "on_message c parsed now (subscribedRideId sk) s
                          = on_unsubscribe c (subscribedRideId sk) s"
      by (simp add: on_message_def)
    show ?thesis
      unfolding eq
    proof (rule consistent_after_leave [OF inv sk])
      show "subscribedRideId
              (sk\<lparr>subscribedRideId := fst (on_unsubscribe c (subscribedRideId sk) s)\<rparr>) = None
            \<or> subscribedRideId
              (sk\<lparr>subscribedRideId := fst (on_unsubscribe c (subscribedRideId sk) s)\<rparr>)
                = subscribedRideId sk"
        using on_unsubscribe_effect(3) [of c "subscribedRideId sk" s] by simp
    qed (simp_all add: on_unsubscribe_effect)
  next
    case Subscribe
    with Some have eq: "on_message c parsed now (subscribedRideId sk) s
                          = on_subscribe c (msg_rideId m) (subscribedRideId sk) s"
      by (simp add: on_message_def)
    show ?thesis
    proof (cases "\<exists>rid. msg_rideId m = Some rid \<and> truthy_string rid")
      case True
      then obtain rid where rid: "msg_rideId m = Some rid" "truthy_string rid" by blast
      show ?thesis
        unfolding eq rid(1)
        by (rule consistent_after_subscribe [OF inv sk rid(2), THEN conjunct1])
           (simp_all add: on_subscribe_effect [OF rid(2)] inv [unfolded registry_consistent_def])
    next
      case False
      then have "on_subscribe c (msg_rideId m) (subscribedRideId sk) s = (subscribedRideId sk, s)"
        by (cases "msg_rideId m") (auto simp: on_subscribe_def)
      then show ?thesis
        unfolding eq by (intro consistent_same_socket [OF inv sk]) simp_all
    qed
  qed
qed

lemma step_consistent:
  assumes inv: "registry_consistent s"
  shows "registry_consistent (step s e)"
proof (cases e)
  case (WsConnect c)
  show ?thesis
  proof (cases "Map_has (sockets s) c")
    case True
    with WsConnect inv show ?thesis by simp
  next
    case False
    then have "Map_get (sockets s) c = None" by (simp add: Map_has_def)
    with WsConnect False show ?thesis
      by (intro consistent_after_connect [OF inv]) simp_all
  qed
next
  case (WsFrame c parsed now)
  show ?thesis
  proof (cases "Map_get (sockets s) c")
    case None
    with WsFrame inv show ?thesis by simp
  next
    case (Some sk)
    show ?thesis
    proof (cases "is_open sk")
      case True
      with WsFrame Some frame_consistent [OF inv Some, of parsed now] show ?thesis
        by (simp add: split_beta)
    next
      case False
      with WsFrame Some inv show ?thesis by simp
    qed
  qed
next
  case (WsClose c)
  show ?thesis
  proof (cases "Map_get (sockets s) c")
    case None
    with WsClose inv show ?thesis by simp
  next
    case (Some sk)
    show ?thesis
    proof (cases "is_open sk")
      case True
      have "registry_consistent
              ((on_close c (subscribedRideId sk) s)
                 \<lparr>sockets := Map_set c (sk\<lparr>is_open := False\<rparr>)
                     (sockets (on_close c (subscribedRideId sk) s))\<rparr>)"
      proof (rule consistent_after_leave [OF inv Some])
        show "subscribedRideId (sk\<lparr>is_open := False\<rparr>) = None
              \<or> subscribedRideId (sk\<lparr>is_open := False\<rparr>) = subscribedRideId sk"
          by simp
      qed (simp_all add: on_close_def)
      with WsClose Some True show ?thesis by (simp add: Let_def)
    next
      case False
      with WsClose Some inv show ?thesis by simp
    qed
  qed
qed (use inv in \<open>auto intro: consistent_unchanged simp: rest_registry\<close>)

lemma run_consistent: "registry_consistent (run (initial_server now) es)"
proof (induction es rule: rev_induct)
  case Nil
  show ?case
    by (simp add: run_Nil initial_server_def registry_consistent_def Map_get_def)
next
  case (snoc e es)
  then show ?case unfolding run_snoc by (rule step_consistent)
qed


text \<open>
  Claim C6: after every finite sequence of requests and channel events from start-up, among
  them every sequence of subscribe, unsubscribe and disconnect, no ride id is a key of the
  subscription registry with an empty set of connections.
\<close>

theorem registry_never_empty_set: "no_empty_subscription (run (initial_server now) es)"
proof -
  let ?m = "rideSubscriptions (run (initial_server now) es)"
  have d: "distinct (map fst ?m)"
    and ne: "\<And>rid cs. Map_get ?m rid = Some cs \<Longrightarrow> cs \<noteq> []"
    using run_consistent [of now es] unfolding registry_consistent_def by blast+
  have "cs \<noteq> []" if "(rid, cs) \<in> set ?m" for rid cs
  proof -
    from that d have "Map_get ?m rid = Some cs"
      by (simp add: Map_get_def)
    then show ?thesis by (rule ne)
  qed
  then show ?thesis
    unfolding no_empty_subscription_def by blast
qed

text \<open>
  Claim C6 at a run in which two connections subscribe to one ride, the first moves to
  another ride and the second disconnects: the entry of the first ride is deleted with its
  last subscriber.
\<close>

theorem registry_never_empty_set_witness:
  "rideSubscriptions (run (initial_server ''t0'') (take 5 registry_events))
     = [(''ride-a'', [2]), (''ride-b'', [1])]
   \<and> rideSubscriptions (run (initial_server ''t0'') registry_events) = [(''ride-b'', [1])]
   \<and> no_empty_subscription (run (initial_server ''t0'') registry_events)"
proof -
  have "rideSubscriptions (run (initial_server ''t0'') (take 5 registry_events))
          = [(''ride-a'', [2]), (''ride-b'', [1])]"
    by code_simp
  moreover have "rideSubscriptions (run (initial_server ''t0'') registry_events)
                   = [(''ride-b'', [1])]"
    by code_simp
  ultimately show ?thesis
    using registry_never_empty_set [of "''t0''" registry_events] by simp
qed

text \<open>
  Claim C7: in every state the server reaches, a subscribe frame of an open connection for
  a ride (a non-empty ride id) puts the connection into the set of that ride and leaves it
  in the set of no other ride, so that it is subscribed to that ride only; the ride becomes
  the connection's \<^verbatim>\<open>subscribedRideId\<close>; and the one frame sent is the last-known
  location of the ride, to that connection, when one is stored.
\<close>

theorem subscribe_replaces_subscription:
  assumes "s = run (initial_server t0) es"
    and "Map_get (sockets s) c = Some sk" and "is_open sk"
    and "rid \<noteq> []"
    and "s' = step s (WsFrame c (subscribe_frame rid) now)"
  shows "c \<in> set (subscribers_of s' rid)
         \<and> (\<forall>r. r \<noteq> rid \<longrightarrow> c \<notin> set (subscribers_of s' r))
         \<and> map_option subscribedRideId (Map_get (sockets s') c) = Some (Some rid)
         \<and> outbox s' = outbox s @ (case Map_get (rideLocations s) rid of
                                     None \<Rightarrow> []
                                   | Some l \<Rightarrow> [(c, Location_update_msg l)])"
proof -
  have inv: "registry_consistent s"
    unfolding assms(1) by (rule run_consistent)
  have t: "truthy_string rid"
    using assms(4) by (simp add: truthy_string_def)
  let ?r = "on_subscribe c (Some rid) (subscribedRideId sk) s"
  have s': "s' = (snd ?r)\<lparr>sockets := Map_set c (sk\<lparr>subscribedRideId := Some rid\<rparr>) (sockets s)\<rparr>"
    using assms(2,3,5)
    by (simp add: subscribe_frame_def on_message_def split_beta on_subscribe_effect [OF t])
  have "registry_consistent s' \<and> c \<in> set (subscribers_of s' rid)
         \<and> (\<forall>r. r \<noteq> rid \<longrightarrow> c \<notin> set (subscribers_of s' r))"
    by (rule consistent_after_subscribe [OF inv assms(2) t])
       (simp_all add: s' on_subscribe_effect [OF t] inv [unfolded registry_consistent_def])
  moreover have "map_option subscribedRideId (Map_get (sockets s') c) = Some (Some rid)"
    by (simp add: s' Map_get_Map_set)
  moreover have "outbox s' = outbox s @ (case Map_get (rideLocations s) rid of
                                     None \<Rightarrow> []
                                   | Some l \<Rightarrow> [(c, Location_update_msg l)])"
    by (simp add: s' on_subscribe_effect [OF t])
  ultimately show ?thesis by blast
qed

text \<open>
  Claim C7 at a connection subscribed to a first ride that subscribes to a second ride
  whose location is stored: it leaves the first set, enters the second, and is sent the
  location.
\<close>

theorem subscribe_replaces_subscription_witness:
  "subscribers_of watching_server ''ride-a'' = [1]
   \<and> Map_get (rideLocations watching_server) ''ride-b''
       = Some \<lparr>lu_lat = 1, lu_lng = 2, lu_timestamp = 7, lu_speed = None\<rparr>
   \<and> outbox watching_server = []
   \<and> subscribers_of (step watching_server (WsFrame 1 (subscribe_frame ''ride-b'') 9)) ''ride-a'' = []
   \<and> subscribers_of (step watching_server (WsFrame 1 (subscribe_frame ''ride-b'') 9)) ''ride-b'' = [1]
   \<and> outbox (step watching_server (WsFrame 1 (subscribe_frame ''ride-b'') 9))
       = [(1, Location_update_msg \<lparr>lu_lat = 1, lu_lng = 2, lu_timestamp = 7, lu_speed = None\<rparr>)]"
proof -
  have sk: "Map_get (sockets watching_server) 1
              = Some \<lparr>subscribedRideId = Some ''ride-a'', is_open = True\<rparr>"
    by code_simp
  have a: "subscribers_of watching_server ''ride-a'' = [1]"
    by code_simp
  have l: "Map_get (rideLocations watching_server) ''ride-b''
             = Some \<lparr>lu_lat = 1, lu_lng = 2, lu_timestamp = 7, lu_speed = None\<rparr>"
    by code_simp
  have ob: "outbox watching_server = []"
    by code_simp
  have a': "subscribers_of (step watching_server (WsFrame 1 (subscribe_frame ''ride-b'') 9))
              ''ride-a'' = []"
    by code_simp
  have b': "subscribers_of (step watching_server (WsFrame 1 (subscribe_frame ''ride-b'') 9))
              ''ride-b'' = [1]"
    by code_simp
  from subscribe_replaces_subscription
         [OF watching_server_def sk _ _ refl, of "''ride-b''" 9] a l ob a' b'
  show ?thesis by simp
qed

end
